theory Spec2Isabelle
  imports
    Main
    "HOL-Library.Multiset"
    "HOL-Library.Char_ord"
    "HOL-Library.List_Lexorder"
    "HOL-Library.Product_Lexorder"
begin

section \<open>Strings and Python values\<close>

text \<open>
  Python strings are modelled as \<open>string\<close> (lists of 8-bit characters); the order on
  strings is the lexicographic order on character codes, as Python compares \<open>str\<close>.
  \<open>is_space\<close> lists the characters below code 256 that \<open>str.split()\<close> treats as
  whitespace.
\<close>

definition is_space :: "char \<Rightarrow> bool" where
  "is_space c = (of_char c \<in> {9, 10, 11, 12, 13, 28, 29, 30, 31, 32, 133, 160 :: nat})"

text \<open>\<open>py_split cur s\<close>: \<open>str.split()\<close> with no argument, \<open>cur\<close> the token being read.
  Runs of whitespace separate tokens and no empty token is produced.\<close>

fun py_split :: "string \<Rightarrow> string \<Rightarrow> string list" where
  "py_split cur [] = (if cur = [] then [] else [cur])"
| "py_split cur (c # cs) =
     (if is_space c then (if cur = [] then py_split [] cs else cur # py_split [] cs)
      else py_split (cur @ [c]) cs)"

text \<open>\<open>filter(None, classes_str.split())\<close>: the tokens of a class attribute, empty ones dropped.\<close>

definition class_tokens :: "string \<Rightarrow> string list" where
  "class_tokens classes_str = filter (\<lambda>t. t \<noteq> []) (py_split [] classes_str)"

text \<open>\<open>tuple(sorted(filter(None, classes_str.split())))\<close> (shopping.py, line 254).\<close>

definition sorted_classes :: "string \<Rightarrow> string list" where
  "sorted_classes classes_str = sort (class_tokens classes_str)"

text \<open>\<open>s.strip()\<close>: leading and trailing whitespace removed.\<close>

definition py_strip :: "string \<Rightarrow> string" where
  "py_strip s = rev (dropWhile is_space (rev (dropWhile is_space s)))"

text \<open>\<open>sub in s\<close> for strings.\<close>

fun py_in :: "string \<Rightarrow> string \<Rightarrow> bool" where
  "py_in sub [] = (sub = [])"
| "py_in sub (c # cs) = (take (length sub) (c # cs) = sub \<or> py_in sub cs)"

text \<open>\<open>sep.join(xs)\<close>.\<close>

fun py_join :: "string \<Rightarrow> string list \<Rightarrow> string" where
  "py_join sep [] = []"
| "py_join sep [x] = x"
| "py_join sep (x # y # ys) = x @ sep @ py_join sep (y # ys)"

text \<open>Truthiness of an optional string: \<open>None\<close> and the empty string are falsy.\<close>

fun truthy :: "string option \<Rightarrow> bool" where
  "truthy None = False"
| "truthy (Some s) = (s \<noteq> [])"

text \<open>
  \<open>sorted(xs, key=f, reverse=True)\<close> and \<open>xs.sort(key=f, reverse=True)\<close>: descending by
  key, and stable, so elements with equal keys keep their original order.
\<close>

definition py_sorted_desc :: "('a \<Rightarrow> 'k::linorder) \<Rightarrow> 'a list \<Rightarrow> 'a list" where
  "py_sorted_desc f xs = rev (sort_key f (rev xs))"

text \<open>The exceptions the scraper distinguishes; every other one is \<open>OtherException\<close>.\<close>

datatype exn =
    StaleElementReferenceException
  | ElementClickInterceptedException
  | NoSuchElementException
  | OtherException

section \<open>DOM elements\<close>

text \<open>
  What the scraper reads of a \<open>WebElement\<close>. \<open>el_size\<close> is \<open>element.size\<close> as
  (width, height). A stale element raises \<open>StaleElementReferenceException\<close> on every read.
\<close>

record element =
  el_tag :: string
  el_href :: "string option"
  el_displayed :: bool
  el_text :: string
  el_title :: "string option"
  el_size :: "(int \<times> int) option"
  el_stale :: bool

text \<open>A container: the element itself and the result of
  \<open>container_element.find_elements(By.TAG_NAME, 'a')\<close>, in document order.\<close>

record container =
  node :: element
  anchors :: "element list"

section \<open>Container Link Extractor\<close>

text \<open>\<open>_is_reasonable_size(element, check_parent, parent_container)\<close>
  (shopping.py, lines 212-237). Every exception inside gives \<open>False\<close>.\<close>

definition is_reasonable_size :: "element \<Rightarrow> bool \<Rightarrow> element option \<Rightarrow> bool" where
  "is_reasonable_size e check_parent parent_container =
     (if el_stale e then False
      else if \<not> el_displayed e then False
      else (case el_size e of
              None \<Rightarrow> False
            | Some (w, h) \<Rightarrow>
                if w < 40 \<or> h < 40 then
                  (if check_parent \<and> parent_container \<noteq> None \<and> el_tag e = ''a'' then
                     (case parent_container of
                        None \<Rightarrow> False
                      | Some p \<Rightarrow>
                          if el_stale p then False
                          else (case el_size p of
                                  None \<Rightarrow> False
                                | Some (pw, ph) \<Rightarrow> pw > 50 \<and> ph > 50))
                   else False)
                else True))"

text \<open>The test of lines 186-194 on one descendant anchor: visible, with an href that is
  not the placeholder, and with significant text or title, or of reasonable size.\<close>

definition is_potential_link :: "element \<Rightarrow> element \<Rightarrow> bool" where
  "is_potential_link container_element link =
     (el_displayed link \<and> truthy (el_href link)
      \<and> \<not> py_in ''javascript:void(0)'' (the (el_href link))
      \<and> (length (py_strip (el_text link)) > 5
           \<or> length (case el_title link of None \<Rightarrow> [] | Some t \<Rightarrow> t) > 5
           \<or> is_reasonable_size link True (Some container_element)))"

text \<open>The loop of lines 183-196; reading a stale anchor raises.\<close>

fun potential_links :: "element \<Rightarrow> element list \<Rightarrow> exn + element list" where
  "potential_links container_element [] = Inr []"
| "potential_links container_element (link # ls) =
     (if el_stale link then Inl StaleElementReferenceException
      else (case potential_links container_element ls of
              Inl e \<Rightarrow> Inl e
            | Inr ps \<Rightarrow>
                Inr (if is_potential_link container_element link then link # ps else ps)))"

text \<open>The sort key of line 199: (length of the stripped text, width * height or 0).\<close>

definition link_key :: "element \<Rightarrow> nat \<times> int" where
  "link_key l =
     (length (py_strip (el_text l)),
      (case el_size l of None \<Rightarrow> 0 | Some (w, h) \<Rightarrow> w * h))"

text \<open>
  \<open>_get_main_link_from_container\<close> (lines 169-210). The log line 170 reads the container
  before the \<open>try\<close>, so a stale container raises to the caller; every exception inside the
  \<open>try\<close> is caught and gives \<open>None\<close>.
\<close>

definition get_main_link_from_container :: "container \<Rightarrow> exn + element option" where
  "get_main_link_from_container c =
     (if el_stale (node c) then Inl StaleElementReferenceException
      else if el_tag (node c) = ''a'' \<and> truthy (el_href (node c)) \<and> el_displayed (node c)
      then Inr (Some (node c))
      else (case potential_links (node c) (anchors c) of
              Inl e \<Rightarrow> Inr None
            | Inr ps \<Rightarrow>
                (case py_sorted_desc link_key ps of
                   [] \<Rightarrow> Inr None
                 | best # others \<Rightarrow> Inr (Some best))))"

section \<open>List Discovery Orchestrator\<close>

text \<open>\<open>min_products_for_list = 10\<close> (line 240) and \<open>max_scroll_attempts = 5\<close> (line 304).\<close>

definition min_products_for_list :: nat where
  "min_products_for_list = 10"

definition max_scroll_attempts :: nat where
  "max_scroll_attempts = 5"

text \<open>An element of \<open>elements_to_analyze\<close> (line 245): what lines 250-252 read of it.\<close>

record page_element =
  pe_displayed :: bool
  pe_class :: "string option"
  pe_stale :: bool

text \<open>\<open>class_counts\<close>: a dict keyed by signature; an association list in insertion
  order, which is the order \<open>class_counts.items()\<close> gives.\<close>

type_synonym class_counts = "(string list \<times> nat) list"

text \<open>\<open>class_counts[k] = class_counts.get(k, 0) + 1\<close> (line 257).\<close>

fun dict_incr :: "string list \<Rightarrow> class_counts \<Rightarrow> class_counts" where
  "dict_incr k [] = [(k, 1)]"
| "dict_incr k ((k', v) # kvs) =
     (if k' = k then (k', v + 1) # kvs else (k', v) # dict_incr k kvs)"

text \<open>The body of the loop of lines 248-260; an exception skips the element.\<close>

definition count_element :: "page_element \<Rightarrow> class_counts \<Rightarrow> class_counts" where
  "count_element e class_counts =
     (if pe_stale e then class_counts
      else if \<not> pe_displayed e then class_counts
      else if truthy (pe_class e) then
        (let sorted_cls = sorted_classes (the (pe_class e))
         in if sorted_cls = [] then class_counts else dict_incr sorted_cls class_counts)
      else class_counts)"

fun count_classes :: "page_element list \<Rightarrow> class_counts \<Rightarrow> class_counts" where
  "count_classes [] class_counts = class_counts"
| "count_classes (e # es) class_counts = count_classes es (count_element e class_counts)"

text \<open>Lines 262-264: signatures of frequency at least the minimum, most frequent first.\<close>

definition sorted_frequent_classes :: "page_element list \<Rightarrow> class_counts" where
  "sorted_frequent_classes elements_to_analyze =
     py_sorted_desc snd
       (filter (\<lambda>kv. snd kv \<ge> min_products_for_list) (count_classes elements_to_analyze []))"

text \<open>
  The page changes while it is scrolled, so a container of the list is given by what each
  successive call of the link extractor sees of it: \<open>c 0\<close> at line 290 and \<open>c k\<close> at
  the \<open>k\<close>-th scroll retry (line 319).
\<close>

type_synonym live_container = "nat \<Rightarrow> container"

text \<open>The variables of the container loop (lines 282-287); \<open>containers_entered\<close> is
  \<open>idx + 1\<close>, the number of containers the loop body has been entered for.\<close>

record group_state =
  links_from_this_class_group :: "element list"
  processed_hrefs_for_group :: "string set"
  consecutive_none_returns :: nat
  last_main_link :: "element option"
  containers_entered :: nat

definition initial_group_state :: group_state where
  "initial_group_state =
     \<lparr>links_from_this_class_group = [], processed_hrefs_for_group = {},
      consecutive_none_returns = 0, last_main_link = None, containers_entered = 0\<rparr>"

text \<open>Lines 294-299 (and 323-328): a link was found.\<close>

definition record_link :: "element \<Rightarrow> group_state \<Rightarrow> group_state" where
  "record_link main_link s =
     (let s1 = s\<lparr>consecutive_none_returns := 0\<rparr>;
          s2 = (if truthy (el_href main_link)
                   \<and> the (el_href main_link) \<notin> processed_hrefs_for_group s1
                then s1\<lparr>links_from_this_class_group :=
                          links_from_this_class_group s1 @ [main_link],
                        processed_hrefs_for_group :=
                          insert (the (el_href main_link)) (processed_hrefs_for_group s1)\<rparr>
                else s1)
      in s2\<lparr>last_main_link := Some main_link\<rparr>)"

text \<open>Lines 336-338 and 341-343: one more consecutive failure.\<close>

definition count_none :: "group_state \<Rightarrow> group_state" where
  "count_none s =
     s\<lparr>consecutive_none_returns := consecutive_none_returns s + 1, last_main_link := None\<rparr>"

text \<open>The scroll-retry loop of lines 308-332.\<close>

function scroll_retry :: "live_container \<Rightarrow> nat \<Rightarrow> exn + element option" where
  "scroll_retry c scroll_attempts =
     (if scroll_attempts < max_scroll_attempts then
        (case get_main_link_from_container (c (Suc scroll_attempts)) of
           Inl e \<Rightarrow> Inl e
         | Inr (Some main_link) \<Rightarrow> Inr (Some main_link)
         | Inr None \<Rightarrow> scroll_retry c (Suc scroll_attempts))
      else Inr None)"
  by pat_completeness auto
termination
  by (relation "measure (\<lambda>(c, n). max_scroll_attempts - n)") auto

declare scroll_retry.simps [simp del]

text \<open>The body of the container loop, lines 289-343. A stale container raises.\<close>

definition process_container :: "live_container \<Rightarrow> group_state \<Rightarrow> exn + group_state" where
  "process_container c s0 =
     (let s = s0\<lparr>containers_entered := containers_entered s0 + 1\<rparr> in
      case get_main_link_from_container (c 0) of
        Inl e \<Rightarrow> Inl e
      | Inr (Some main_link) \<Rightarrow> Inr (record_link main_link s)
      | Inr None \<Rightarrow>
          if last_main_link s \<noteq> None then
            (case scroll_retry c 0 of
               Inl e \<Rightarrow> Inl e
             | Inr (Some main_link) \<Rightarrow> Inr (record_link main_link s)
             | Inr None \<Rightarrow> Inr (count_none s))
          else Inr (count_none s))"

text \<open>The container loop with the break of lines 345-347.\<close>

fun process_containers :: "live_container list \<Rightarrow> group_state \<Rightarrow> exn + group_state" where
  "process_containers [] s = Inr s"
| "process_containers (c # cs) s =
     (case process_container c s of
        Inl e \<Rightarrow> Inl e
      | Inr s' \<Rightarrow>
          if consecutive_none_returns s' \<ge> 2 then Inr s'
          else process_containers cs s')"

text \<open>
  The candidate loop of lines 271-358. \<open>find_elements\<close> is
  \<open>driver.find_elements(By.CSS_SELECTOR, _)\<close>. An exception inside the \<open>try\<close> goes on
  with the next candidate (lines 356-358). The threshold test of line 351 comes after the
  container loop, whether it ended normally or by the break.
\<close>

fun try_classes ::
  "(string \<Rightarrow> exn + live_container list) \<Rightarrow> class_counts \<Rightarrow> (element list \<times> string) option"
where
  "try_classes find_elements [] = None"
| "try_classes find_elements ((class_tuple, freq) # remaining) =
     (if class_tuple = [] then try_classes find_elements remaining
      else
        (let class_selector_value = ''.'' @ py_join ''.'' class_tuple in
         case find_elements class_selector_value of
           Inl e \<Rightarrow> try_classes find_elements remaining
         | Inr visible_containers \<Rightarrow>
             if length visible_containers \<ge> min_products_for_list then
               (case process_containers visible_containers initial_group_state of
                  Inl e \<Rightarrow> try_classes find_elements remaining
                | Inr s \<Rightarrow>
                    if length (links_from_this_class_group s) \<ge> min_products_for_list
                    then Some (links_from_this_class_group s, class_selector_value)
                    else try_classes find_elements remaining)
             else try_classes find_elements remaining))"

text \<open>\<open>find_products\<close> (lines 239-361): \<open>None\<close> stands for \<open>(None, None, None)\<close>.\<close>

definition find_products ::
  "page_element list \<Rightarrow> (string \<Rightarrow> exn + live_container list) \<Rightarrow> (element list \<times> string) option"
where
  "find_products elements_to_analyze find_elements =
     try_classes find_elements (sorted_frequent_classes elements_to_analyze)"

subsection \<open>Example elements\<close>

text \<open>A visible anchor of size 100 x 100, a visible block, a tile holding one anchor and
  a tile holding none.\<close>

definition anchor_fixture :: "string \<Rightarrow> string \<Rightarrow> element" where
  "anchor_fixture h t =
     \<lparr>el_tag = ''a'', el_href = Some h, el_displayed = True, el_text = t,
      el_title = None, el_size = Some (100, 100), el_stale = False\<rparr>"

definition div_fixture :: element where
  "div_fixture =
     \<lparr>el_tag = ''div'', el_href = None, el_displayed = True, el_text = [],
      el_title = None, el_size = Some (200, 200), el_stale = False\<rparr>"

definition tile :: "string \<Rightarrow> live_container" where
  "tile h = (\<lambda>k. \<lparr>node = div_fixture, anchors = [anchor_fixture h ''Product title'']\<rparr>)"

definition empty_tile :: live_container where
  "empty_tile = (\<lambda>k. \<lparr>node = div_fixture, anchors = []\<rparr>)"

text \<open>Example pages: elements of class \<open>item\<close> and \<open>other\<close>, lists of tiles,
  and the CSS query of a page with these two classes.\<close>

definition item_element :: page_element where
  "item_element = \<lparr>pe_displayed = True, pe_class = Some ''item'', pe_stale = False\<rparr>"

definition ten_tiles :: "live_container list" where
  "ten_tiles = map tile [''/p/0'', ''/p/1'', ''/p/2'', ''/p/3'', ''/p/4'',
                         ''/p/5'', ''/p/6'', ''/p/7'', ''/p/8'', ''/p/9'']"

definition ten_links :: "element list" where
  "ten_links = map (\<lambda>h. anchor_fixture h ''Product title'')
                 [''/p/0'', ''/p/1'', ''/p/2'', ''/p/3'', ''/p/4'',
                  ''/p/5'', ''/p/6'', ''/p/7'', ''/p/8'', ''/p/9'']"

definition other_element :: page_element where
  "other_element = \<lparr>pe_displayed = True, pe_class = Some ''other'', pe_stale = False\<rparr>"

definition two_class_page :: "page_element list" where
  "two_class_page = replicate 11 item_element @ replicate 10 other_element"

definition css_query ::
  "live_container list \<Rightarrow> live_container list \<Rightarrow> string \<Rightarrow> exn + live_container list" where
  "css_query items others sel =
     (if sel = ''.item'' then Inr items else if sel = ''.other'' then Inr others else Inr [])"

definition other_tiles :: "live_container list" where
  "other_tiles = map tile [''/o/0'', ''/o/1'', ''/o/2'', ''/o/3'', ''/o/4'',
                           ''/o/5'', ''/o/6'', ''/o/7'', ''/o/8'', ''/o/9'']"

definition other_links :: "element list" where
  "other_links = map (\<lambda>h. anchor_fixture h ''Product title'')
                 [''/o/0'', ''/o/1'', ''/o/2'', ''/o/3'', ''/o/4'',
                  ''/o/5'', ''/o/6'', ''/o/7'', ''/o/8'', ''/o/9'']"

definition eleven_tiles :: "live_container list" where
  "eleven_tiles = ten_tiles @ [tile ''/p/10'']"

definition abandoned_late :: "live_container list" where
  "abandoned_late = ten_tiles @ [empty_tile, empty_tile, tile ''/p/10'']"

definition abandoned_early :: "live_container list" where
  "abandoned_early = [tile ''/p/0'', empty_tile, empty_tile] @ replicate 8 (tile ''/p/1'')"

definition state_after_ten :: group_state where
  "state_after_ten =
     \<lparr>links_from_this_class_group = ten_links,
      processed_hrefs_for_group = set [''/p/0'', ''/p/1'', ''/p/2'', ''/p/3'', ''/p/4'',
                  ''/p/5'', ''/p/6'', ''/p/7'', ''/p/8'', ''/p/9''],
      consecutive_none_returns = 0,
      last_main_link = Some (anchor_fixture ''/p/9'' ''Product title''),
      containers_entered = 10\<rparr>"

section \<open>Extraction Fallback Gateway and record extraction\<close>

text \<open>\<open>s.lower()\<close> on the ASCII letters; no other character lowers to a letter of
  \<open>none\<close>, the only string the result is compared with.\<close>

definition py_lower :: "string \<Rightarrow> string" where
  "py_lower s =
     map (\<lambda>c. case map_of (zip ''ABCDEFGHIJKLMNOPQRSTUVWXYZ'' ''abcdefghijklmnopqrstuvwxyz'') c of
                 Some l \<Rightarrow> l | None \<Rightarrow> c) s"

text \<open>
  What \<open>client.chat.completions.create\<close> can do (lines 62-84): raise; return a falsy
  response or one with no choices; or return a first choice whose message content is a
  string or \<open>None\<close>.
\<close>

datatype api_response =
    ApiRaises
  | ApiEmptyResponse
  | ApiContent "string option"

text \<open>The prompt of lines 48-57; \<open>None\<close> for a field that is neither price nor title.\<close>

definition prompt_for :: "string \<Rightarrow> string option" where
  "prompt_for target_field =
     (if target_field = ''price'' then
        Some (''Extract the product price from this HTML content. '' @ [CHR 0x0A] @
              ''        Return only the price as a string with a $ symbol (e.g. $99.99).'' @ [CHR 0x0A] @
              ''        If you cannot find the price, return None.'')
      else if target_field = ''title'' then
        Some (''Extract the product title from this HTML content.'' @ [CHR 0x0A] @
              ''        Return only the title as a string. Do not include any other text.'' @ [CHR 0x0A] @
              ''        If you cannot find the title, return None.'')
      else None)"

text \<open>The body of the \<open>try\<close> of lines 59-84. \<open>None.strip()\<close> raises.\<close>

definition deepseek_call :: "(string \<Rightarrow> api_response) \<Rightarrow> string \<Rightarrow> exn + string option" where
  "deepseek_call client message =
     (case client message of
        ApiRaises \<Rightarrow> Inl OtherException
      | ApiEmptyResponse \<Rightarrow> Inr None
      | ApiContent None \<Rightarrow> Inl OtherException
      | ApiContent (Some content) \<Rightarrow>
          (let extracted_text = py_strip content in
           if py_lower extracted_text = ''none'' \<or> extracted_text = [] then Inr None
           else Inr (Some extracted_text)))"

text \<open>Lines 44-45.\<close>

definition truncate_html :: "string \<Rightarrow> string" where
  "truncate_html html_content =
     (if length html_content > 100000 then take 100000 html_content @ ''...''
      else html_content)"

text \<open>The user message of line 66.\<close>

definition user_message :: "string \<Rightarrow> string \<Rightarrow> string" where
  "user_message prompt html_content =
     prompt @ [CHR 0x0A, CHR 0x0A] @ ''HTML Content: '' @ html_content"

text \<open>\<open>extract_with_deepseek\<close> (lines 29-88): every exception of the call is caught
  (lines 86-88).\<close>

definition extract_with_deepseek ::
  "(string \<Rightarrow> api_response) \<Rightarrow> string \<Rightarrow> string \<Rightarrow> exn + string option" where
  "extract_with_deepseek client html_content target_field =
     (case prompt_for target_field of
        None \<Rightarrow> Inr None
      | Some prompt \<Rightarrow>
          (case deepseek_call client (user_message prompt (truncate_html html_content)) of
             Inl e \<Rightarrow> Inr None
           | Inr r \<Rightarrow> Inr r))"

text \<open>\<open>re.search(r'\$\d+', s)\<close>: a dollar sign followed by a digit somewhere in \<open>s\<close>.\<close>

definition is_digit :: "char \<Rightarrow> bool" where
  "is_digit c = (CHR ''0'' \<le> c \<and> c \<le> CHR ''9'')"

fun re_dollar_digits :: "string \<Rightarrow> bool" where
  "re_dollar_digits (c # d # rest) =
     ((c = CHR ''$'' \<and> is_digit d) \<or> re_dollar_digits (d # rest))"
| "re_dollar_digits cs = False"

text \<open>\<open>product_info\<close>: a dict with the keys title, price and url.\<close>

type_synonym product_info = "string \<rightharpoonup> string"

text \<open>
  What \<open>extract_product_info\<close> reads of the product page: the results of the title and
  price selector loops (lines 441-491, which catch every exception themselves),
  \<open>driver.current_url\<close> (line 494, outside any \<open>try\<close>) and \<open>driver.page_source\<close>.
\<close>

record product_page =
  title_by_selectors :: "string option"
  price_by_selectors :: "string option"
  url_read :: "exn + string"
  page_html :: "exn + string"

text \<open>Lines 501-509 and 526-534: one fallback attempt inside its own \<open>try\<close>.\<close>

definition fallback_field ::
  "product_page \<Rightarrow> (string \<Rightarrow> string \<Rightarrow> exn + string option) \<Rightarrow> string
     \<Rightarrow> product_info \<Rightarrow> product_info" where
  "fallback_field page fallback field info =
     (case page_html page of
        Inl e \<Rightarrow> info
      | Inr html \<Rightarrow>
          (case fallback html field of
             Inl e \<Rightarrow> info
           | Inr extracted \<Rightarrow> if truthy extracted then info(field \<mapsto> the extracted) else info))"

text \<open>Lines 512-522.\<close>

definition has_valid_price :: "product_info \<Rightarrow> bool" where
  "has_valid_price info =
     (truthy (info ''price'') \<and> re_dollar_digits (the (info ''price''))
      \<and> the (info ''price'') \<noteq> ''$0.00'')"

text \<open>\<open>extract_product_info\<close> (lines 419-536), for any fallback extractor.\<close>

definition extract_product_info ::
  "product_page \<Rightarrow> (string \<Rightarrow> string \<Rightarrow> exn + string option) \<Rightarrow> exn + product_info" where
  "extract_product_info page fallback =
     (let info1 = (case title_by_selectors page of
                     None \<Rightarrow> Map.empty | Some t \<Rightarrow> [''title'' \<mapsto> t]);
          info2 = (case price_by_selectors page of
                     None \<Rightarrow> info1 | Some p \<Rightarrow> info1(''price'' \<mapsto> p))
      in case url_read page of
           Inl e \<Rightarrow> Inl e
         | Inr url \<Rightarrow>
             (let info3 = info2(''url'' \<mapsto> url) in
              if truthy (info3 ''url'') then
                (let info4 = (if \<not> truthy (info3 ''title'')
                              then fallback_field page fallback ''title'' info3 else info3);
                     info5 = (if \<not> has_valid_price info4
                              then fallback_field page fallback ''price'' info4 else info4)
                 in Inr info5)
              else Inr info3))"

text \<open>The failing outcomes of the fallback call: an exception, an empty response, no
  content, or a content that is empty or \<open>None\<close> in any letter case.\<close>

fun fallback_failed :: "api_response \<Rightarrow> bool" where
  "fallback_failed ApiRaises = True"
| "fallback_failed ApiEmptyResponse = True"
| "fallback_failed (ApiContent None) = True"
| "fallback_failed (ApiContent (Some content)) =
     (py_lower (py_strip content) = ''none'' \<or> py_strip content = [])"

text \<open>A product page with no title found and the price \<open>$0.00\<close>.\<close>

definition page_without_title :: product_page where
  "page_without_title =
     \<lparr>title_by_selectors = None, price_by_selectors = Some ''$0.00'',
      url_read = Inr ''https://shop.example/p/1'', page_html = Inr ''<html></html>''\<rparr>"

section \<open>Pagination Navigator\<close>

text \<open>
  The driver calls of \<open>try_next_page_button\<close>, over any browser state \<open>'w\<close> and any
  type \<open>'b\<close> of buttons: \<open>button.click()\<close>, the programmatic click
  \<open>execute_script("arguments[0].click();", button)\<close> and \<open>driver.current_url\<close>. A click
  returns the exception it raised, if any, and the state it leaves. Reading the URL gives
  \<open>None\<close> when it raises; the click-intercepted exception belongs to clicks only.
\<close>

record ('w, 'b) page_driver =
  click :: "'b \<Rightarrow> 'w \<Rightarrow> exn option \<times> 'w"
  js_click :: "'b \<Rightarrow> 'w \<Rightarrow> exn option \<times> 'w"
  get_current_url :: "'w \<Rightarrow> string option \<times> 'w"

text \<open>Lines 777-783 (and 792-798): read the URL and compare it with the captured one.\<close>

definition check_url_changed ::
  "('w, 'b) page_driver \<Rightarrow> string \<Rightarrow> 'w \<Rightarrow> (bool \<times> string) \<times> 'w" where
  "check_url_changed drv current_url w =
     (case get_current_url drv w of
        (None, w') \<Rightarrow> ((False, current_url), w')
      | (Some new_url, w') \<Rightarrow>
          if new_url \<noteq> current_url then ((True, new_url), w')
          else ((False, current_url), w'))"

text \<open>Lines 757-758: the captured URL is the argument, or read when the argument is
  \<open>None\<close>.\<close>

definition capture_url ::
  "('w, 'b) page_driver \<Rightarrow> string option \<Rightarrow> 'w \<Rightarrow> string option \<times> 'w" where
  "capture_url drv current_url w =
     (case current_url of
        Some u \<Rightarrow> (Some u, w)
      | None \<Rightarrow> get_current_url drv w)"

text \<open>
  \<open>try_next_page_button\<close> (lines 746-804). The result is the returned pair, the set of
  tried buttons and the browser state; an exception escapes only from reading the URL at
  line 758.
\<close>

definition try_next_page_button ::
  "('w, 'b) page_driver \<Rightarrow> 'b \<Rightarrow> string option \<Rightarrow> 'b set \<Rightarrow> 'w
     \<Rightarrow> (exn + bool \<times> string) \<times> 'b set \<times> 'w" where
  "try_next_page_button drv button current_url tried_buttons w =
     (case capture_url drv current_url w of
        (None, w0) \<Rightarrow> (Inl OtherException, tried_buttons, w0)
      | (Some cur, w0) \<Rightarrow>
          if button \<in> tried_buttons then (Inr (False, cur), tried_buttons, w0)
          else
            (let tried = insert button tried_buttons in
             case click drv button w0 of
               (None, w1) \<Rightarrow>
                 (case check_url_changed drv cur w1 of (r, w2) \<Rightarrow> (Inr r, tried, w2))
             | (Some ElementClickInterceptedException, w1) \<Rightarrow>
                 (case js_click drv button w1 of
                    (None, w2) \<Rightarrow>
                      (case check_url_changed drv cur w2 of (r, w3) \<Rightarrow> (Inr r, tried, w3))
                  | (Some e, w2) \<Rightarrow> (Inr (False, cur), tried, w2))
             | (Some e, w1) \<Rightarrow> (Inr (False, cur), tried, w1)))"

text \<open>
  The URL observed after the click: the one read once the direct click has returned, or
  once the programmatic click has returned after an intercepted direct click; \<open>None\<close>
  when no click went through or the URL could not be read.
\<close>

definition url_after_click :: "('w, 'b) page_driver \<Rightarrow> 'b \<Rightarrow> 'w \<Rightarrow> string option" where
  "url_after_click drv button w =
     (case click drv button w of
        (None, w1) \<Rightarrow> fst (get_current_url drv w1)
      | (Some ElementClickInterceptedException, w1) \<Rightarrow>
          (case js_click drv button w1 of
             (None, w2) \<Rightarrow> fst (get_current_url drv w2)
           | (Some e, w2) \<Rightarrow> None)
      | (Some e, w1) \<Rightarrow> None)"

text \<open>The success flag of the returned pair.\<close>

definition reported_success :: "(exn + bool \<times> string) \<times> 'b set \<times> 'w \<Rightarrow> bool" where
  "reported_success r = (case fst r of Inl e \<Rightarrow> False | Inr (success, url) \<Rightarrow> success)"

text \<open>An example browser and driver: the button \<open>next\<close> changes the URL, \<open>overlaid\<close>
  is intercepted and works by a programmatic click, \<open>carousel\<close> changes the page content
  and not the URL, every other button fails.\<close>

record browser =
  url :: string
  dom :: string

definition listing_driver :: "(browser, string) page_driver" where
  "listing_driver =
     \<lparr>click = (\<lambda>button w.
          if button = ''next'' then (None, w\<lparr>url := ''https://shop.example/s?page=2''\<rparr>)
          else if button = ''overlaid'' then (Some ElementClickInterceptedException, w)
          else if button = ''carousel'' then (None, w\<lparr>dom := ''<div>slide 2</div>''\<rparr>)
          else (Some OtherException, w)),
      js_click = (\<lambda>button w. (None, w\<lparr>url := ''https://shop.example/s?page=2''\<rparr>)),
      get_current_url = (\<lambda>w. (Some (url w), w))\<rparr>"

definition listing_page_1 :: browser where
  "listing_page_1 = \<lparr>url = ''https://shop.example/s?page=1'', dom = ''<div>slide 1</div>''\<rparr>"

section \<open>Session Controller: the per-record loop\<close>

text \<open>
  The per-record loop of \<open>search_and_scrape\<close> (shopping.py, lines 585-701). A window
  handle is a string. The browser and the output file are the environment of the loop: each
  call that the loop makes outside an inner \<open>try\<close> is a call site, named by the call and
  its line, and may raise.
\<close>

type_synonym handle = string

datatype call_site =
    Find_elements_591
  | Current_window_handle_626
  | Click_628
  | Execute_script_631
  | Window_handles_634
  | Window_handles_635
  | Switch_to_window_638
  | Open_659
  | Close_674
  | Switch_to_window_676
  | Back_680
  | Current_window_handle_693
  | Close_694
  | Switch_to_window_695
  | Current_url_696
  | Back_697

text \<open>
  What the browser does during one iteration: the exception raised at each call site, if
  any; the containers found again at line 591; the window that the click on the product
  opens, if it opens one; the product page then shown and the fallback extractor; the URL
  read by the handler at line 696.
\<close>

record record_env =
  raised_at :: "call_site \<Rightarrow> exn option"
  refreshed_container_elements :: "container list"
  opened_window :: "handle option"
  product_page_shown :: product_page
  fallback_extractor :: "string \<Rightarrow> string \<Rightarrow> exn + string option"
  url_at_696 :: string

text \<open>
  The state that the loop reads and writes: the windows of the driver and its active one,
  the lines appended to the output file, and the local variables of \<open>search_and_scrape\<close>
  that live across iterations. \<open>main_window\<close> and \<open>new_window\<close> are unbound (\<open>None\<close>)
  until their first assignment; \<open>new_window\<close> is then \<open>Some None\<close> or a handle.
\<close>

record session =
  window_handles :: "handle list"
  current_window_handle :: handle
  output_file :: "product_info list"
  processed_product_hrefs_on_page :: "string option set"
  products_count :: nat
  main_window :: "handle option"
  new_window :: "handle option option"

text \<open>A statement of the loop body returns the exception it raised, if any, and the
  state it leaves; \<open>then_do\<close> is sequencing, which a raised exception cuts short.\<close>

definition then_do ::
  "(session \<Rightarrow> exn option \<times> session) \<Rightarrow> (session \<Rightarrow> exn option \<times> session)
     \<Rightarrow> session \<Rightarrow> exn option \<times> session" where
  "then_do first second s =
     (case first s of
        (Some e, s') \<Rightarrow> (Some e, s')
      | (None, s') \<Rightarrow> second s')"

text \<open>A driver call: it raises what its call site raises and leaves the state as it is,
  or has its effect.\<close>

definition driver_call ::
  "record_env \<Rightarrow> call_site \<Rightarrow> (session \<Rightarrow> session) \<Rightarrow> session \<Rightarrow> exn option \<times> session" where
  "driver_call env site effect s =
     (case raised_at env site of
        Some e \<Rightarrow> (Some e, s)
      | None \<Rightarrow> (None, effect s))"

text \<open>\<open>driver.close()\<close> closes the active window.\<close>

definition close_window :: "record_env \<Rightarrow> call_site \<Rightarrow> session \<Rightarrow> exn option \<times> session" where
  "close_window env site =
     driver_call env site
       (\<lambda>s. s\<lparr>window_handles := remove1 (current_window_handle s) (window_handles s)\<rparr>)"

text \<open>\<open>driver.switch_to.window(h)\<close>: a handle that is not a window of the driver
  raises (\<open>NoSuchWindowException\<close>).\<close>

definition switch_to_window ::
  "record_env \<Rightarrow> call_site \<Rightarrow> handle \<Rightarrow> session \<Rightarrow> exn option \<times> session" where
  "switch_to_window env site h s =
     (case raised_at env site of
        Some e \<Rightarrow> (Some e, s)
      | None \<Rightarrow>
          if h \<in> set (window_handles s) then (None, s\<lparr>current_window_handle := h\<rparr>)
          else (Some OtherException, s))"

text \<open>\<open>driver.switch_to.window(main_window)\<close>; reading an unbound \<open>main_window\<close>
  raises (\<open>NameError\<close>).\<close>

definition switch_to_main_window ::
  "record_env \<Rightarrow> call_site \<Rightarrow> session \<Rightarrow> exn option \<times> session" where
  "switch_to_main_window env site s =
     (case main_window s of
        None \<Rightarrow> (Some OtherException, s)
      | Some h \<Rightarrow> switch_to_window env site h s)"

text \<open>A click that goes through opens the window of the environment, after the windows
  that exist; the active window stays the same.\<close>

definition clicked :: "record_env \<Rightarrow> session \<Rightarrow> session" where
  "clicked env s =
     (case opened_window env of
        None \<Rightarrow> s
      | Some h \<Rightarrow> s\<lparr>window_handles := window_handles s @ [h]\<rparr>)"

text \<open>Lines 627-631: the click, and the programmatic click when it is intercepted.\<close>

definition click_product :: "record_env \<Rightarrow> session \<Rightarrow> exn option \<times> session" where
  "click_product env s =
     (case raised_at env Click_628 of
        None \<Rightarrow> (None, clicked env s)
      | Some ElementClickInterceptedException \<Rightarrow> driver_call env Execute_script_631 (clicked env) s
      | Some e \<Rightarrow> (Some e, s))"

text \<open>Lines 633-640: the first handle that is not \<open>main_window\<close> becomes \<open>new_window\<close>
  and the active window, when the driver has more than one window.\<close>

definition detect_new_window :: "record_env \<Rightarrow> session \<Rightarrow> exn option \<times> session" where
  "detect_new_window env s =
     (let s1 = s\<lparr>new_window := Some None\<rparr> in
      case raised_at env Window_handles_634 of
        Some e \<Rightarrow> (Some e, s1)
      | None \<Rightarrow>
          if length (window_handles s1) > 1 then
            (case raised_at env Window_handles_635 of
               Some e \<Rightarrow> (Some e, s1)
             | None \<Rightarrow>
                 (case find (\<lambda>h. Some h \<noteq> main_window s1) (window_handles s1) of
                    None \<Rightarrow> (None, s1)
                  | Some h \<Rightarrow>
                      switch_to_window env Switch_to_window_638 h
                        (s1\<lparr>new_window := Some (Some h)\<rparr>)))
          else (None, s1))"

text \<open>
  Lines 654-669: a record is written only under \<open>if product_info.get('url')\<close>. The href
  is marked as processed before the file is opened; a failure to open the file (or to
  write the separating newline) raises before anything of the record is written.
\<close>

definition save_product ::
  "record_env \<Rightarrow> string option \<Rightarrow> product_info \<Rightarrow> session \<Rightarrow> exn option \<times> session" where
  "save_product env target_href product_info s =
     (if truthy (product_info ''url'') then
        driver_call env Open_659
          (\<lambda>s. s\<lparr>output_file := output_file s @ [product_info],
                 products_count := products_count s + 1\<rparr>)
          (s\<lparr>processed_product_hrefs_on_page :=
                insert target_href (processed_product_hrefs_on_page s)\<rparr>)
      else (None, s))"

text \<open>Lines 671-681: close the new window and switch to the main one, or go back.\<close>

definition leave_product_page :: "record_env \<Rightarrow> session \<Rightarrow> exn option \<times> session" where
  "leave_product_page env s =
     (case new_window s of
        None \<Rightarrow> (Some OtherException, s)
      | Some w \<Rightarrow>
          if truthy w then
            then_do (close_window env Close_674) (switch_to_main_window env Switch_to_window_676) s
          else driver_call env Back_680 id s)"

text \<open>
  Lines 620-685, for the element to click. Reading the href of a stale element raises. The
  scroll of lines 643-649 catches every exception and changes nothing of the state.
\<close>

definition visit_product :: "record_env \<Rightarrow> element \<Rightarrow> session \<Rightarrow> exn option \<times> session" where
  "visit_product env current_product_element_to_click s =
     (if el_stale current_product_element_to_click then (Some StaleElementReferenceException, s)
      else
        (let target_href = el_href current_product_element_to_click in
         if target_href \<in> processed_product_hrefs_on_page s then (None, s)
         else
           then_do
             (driver_call env Current_window_handle_626
                (\<lambda>s. s\<lparr>main_window := Some (current_window_handle s)\<rparr>))
             (then_do (click_product env)
                (then_do (detect_new_window env)
                   (\<lambda>s. case extract_product_info (product_page_shown env)
                                (fallback_extractor env) of
                           Inl e \<Rightarrow> (Some e, s)
                         | Inr product_info \<Rightarrow>
                             then_do (save_product env target_href product_info)
                               (leave_product_page env) s))) s))"

text \<open>
  Lines 589-614: the element to click for the record of index \<open>i\<close>. After the first
  record the containers are found again and the main link of the container of index \<open>i\<close>
  is extracted, every exception of the extraction being caught.
\<close>

definition locate_product ::
  "record_env \<Rightarrow> string option \<Rightarrow> nat \<Rightarrow> element list \<Rightarrow> exn + element option" where
  "locate_product env successful_selector_value i product_elements =
     (if i > 0 \<and> truthy successful_selector_value then
        (case raised_at env Find_elements_591 of
           Some e \<Rightarrow> Inl e
         | None \<Rightarrow>
             if i < length (refreshed_container_elements env) then
               (case get_main_link_from_container (refreshed_container_elements env ! i) of
                  Inl e \<Rightarrow> Inr None
                | Inr main_link \<Rightarrow> Inr main_link)
             else Inr None)
      else if i < length product_elements then Inr (Some (product_elements ! i))
      else Inr None)"

text \<open>The \<open>try\<close> block of lines 588-685.\<close>

definition try_record ::
  "record_env \<Rightarrow> string option \<Rightarrow> nat \<Rightarrow> element list \<Rightarrow> session \<Rightarrow> exn option \<times> session" where
  "try_record env successful_selector_value i product_elements s =
     (case locate_product env successful_selector_value i product_elements of
        Inl e \<Rightarrow> (Some e, s)
      | Inr None \<Rightarrow> (None, s)
      | Inr (Some current_product_element_to_click) \<Rightarrow>
          visit_product env current_product_element_to_click s)"

text \<open>
  The \<open>try\<close> block of the generic handler, lines 692-698. Reading an unbound
  \<open>new_window\<close> raises (\<open>NameError\<close>).
\<close>

definition recover :: "record_env \<Rightarrow> string \<Rightarrow> session \<Rightarrow> exn option \<times> session" where
  "recover env starting_website s =
     (case new_window s of
        None \<Rightarrow> (Some OtherException, s)
      | Some w \<Rightarrow>
          (case (if truthy w then
                   (case raised_at env Current_window_handle_693 of
                      Some e \<Rightarrow> Inl e
                    | None \<Rightarrow> Inr (Some (current_window_handle s) = w))
                 else Inr False) of
             Inl e \<Rightarrow> (Some e, s)
           | Inr True \<Rightarrow>
               then_do (close_window env Close_694)
                 (switch_to_main_window env Switch_to_window_695) s
           | Inr False \<Rightarrow>
               (case raised_at env Current_url_696 of
                  Some e \<Rightarrow> (Some e, s)
                | None \<Rightarrow>
                    if url_at_696 env \<noteq> starting_website
                       \<and> \<not> py_in ''search'' (py_lower (url_at_696 env))
                    then driver_call env Back_697 id s
                    else (None, s))))"

text \<open>How an iteration ends: the loop goes on to the next record, or \<open>break\<close>.\<close>

datatype flow = Next_record | Break_page

text \<open>
  One iteration, lines 585-701: the \<open>try\<close> block; the handler of
  \<open>StaleElementReferenceException\<close> (lines 687-689), which is \<open>break\<close> alone; the handler
  of every other exception (lines 690-701), which recovers and goes on, or breaks when
  the recovery raises.
\<close>

definition process_record ::
  "record_env \<Rightarrow> string option \<Rightarrow> string \<Rightarrow> nat \<Rightarrow> element list \<Rightarrow> session \<Rightarrow> flow \<times> session" where
  "process_record env successful_selector_value starting_website i product_elements s =
     (case try_record env successful_selector_value i product_elements s of
        (None, s') \<Rightarrow> (Next_record, s')
      | (Some StaleElementReferenceException, s') \<Rightarrow> (Break_page, s')
      | (Some e, s') \<Rightarrow>
          (case recover env starting_website s' of
             (None, s'') \<Rightarrow> (Next_record, s'')
           | (Some e_nav, s'') \<Rightarrow> (Break_page, s'')))"

text \<open>The loop over the indices of the records, the environment of iteration \<open>i\<close> being
  \<open>env_of i\<close>.\<close>

fun process_records ::
  "(nat \<Rightarrow> record_env) \<Rightarrow> string option \<Rightarrow> string \<Rightarrow> element list \<Rightarrow> nat list \<Rightarrow> session
     \<Rightarrow> session" where
  "process_records env_of successful_selector_value starting_website product_elements [] s = s"
| "process_records env_of successful_selector_value starting_website product_elements (i # is) s =
     (case process_record (env_of i) successful_selector_value starting_website i
             product_elements s of
        (Next_record, s') \<Rightarrow>
          process_records env_of successful_selector_value starting_website product_elements is s'
      | (Break_page, s') \<Rightarrow> s')"

text \<open>Lines 581-585: the records of one page.\<close>

definition process_page ::
  "(nat \<Rightarrow> record_env) \<Rightarrow> string option \<Rightarrow> string \<Rightarrow> nat \<Rightarrow> element list \<Rightarrow> session
     \<Rightarrow> session" where
  "process_page env_of successful_selector_value starting_website max_products_per_page
       product_elements s =
     process_records env_of successful_selector_value starting_website product_elements
       [0 ..< min max_products_per_page (length product_elements)]
       (s\<lparr>processed_product_hrefs_on_page := {}\<rparr>)"

subsection \<open>Example session\<close>

text \<open>
  A listing shown in the window \<open>main\<close>, before the first record of the first page; a
  product page with title, price and URL, and the record extracted from it; the record
  extracted when the URL read is empty. In \<open>popup_env\<close> a click on a product opens the
  window \<open>popup\<close>; the driver raises what \<open>faults\<close> says and shows the page \<open>shown\<close>.
  \<open>two_products\<close> are two iterations without faults, the second on a page whose URL is
  read as empty.
\<close>

definition listing_session :: session where
  "listing_session =
     \<lparr>window_handles = [''main''], current_window_handle = ''main'', output_file = [],
      processed_product_hrefs_on_page = {}, products_count = 0,
      main_window = None, new_window = None\<rparr>"

definition product_page_1 :: product_page where
  "product_page_1 =
     \<lparr>title_by_selectors = Some ''Console'', price_by_selectors = Some ''$499'',
      url_read = Inr ''https://shop.example/p/1'', page_html = Inr ''<html></html>''\<rparr>"

definition record_1 :: product_info where
  "record_1 = [''title'' \<mapsto> ''Console'', ''price'' \<mapsto> ''$499'',
               ''url'' \<mapsto> ''https://shop.example/p/1'']"

definition record_without_url :: product_info where
  "record_without_url = [''title'' \<mapsto> ''Console'', ''price'' \<mapsto> ''$499'', ''url'' \<mapsto> []]"

definition popup_env :: "(call_site \<Rightarrow> exn option) \<Rightarrow> product_page \<Rightarrow> record_env" where
  "popup_env faults shown =
     \<lparr>raised_at = faults,
      refreshed_container_elements = [tile ''/p/1'' 0, tile ''/p/2'' 0],
      opened_window = Some ''popup'',
      product_page_shown = shown,
      fallback_extractor = (\<lambda>html field. Inr None),
      url_at_696 = ''https://shop.example/search?q=console''\<rparr>"

definition two_products :: "nat \<Rightarrow> record_env" where
  "two_products i =
     popup_env (\<lambda>site. None)
       (if i = 0 then product_page_1 else product_page_1\<lparr>url_read := Inr []\<rparr>)"

definition two_links :: "element list" where
  "two_links = [anchor_fixture ''/p/1'' ''Product title'', anchor_fixture ''/p/2'' ''Product title'']"

section \<open>Deduplication utility\<close>
















subsection \<open>Example input file\<close>





section \<open>Class signatures\<close>

lemma sort_eq_iff_mset: "(sort xs = sort ys) = (mset xs = mset ys)"
proof
  assume "sort xs = sort ys"
  then have "mset (sort xs) = mset (sort ys)" by simp
  then show "mset xs = mset ys" by simp
next
  assume "mset xs = mset ys"
  then show "sort xs = sort ys"
    by (intro properties_for_sort) simp_all
qed

text \<open>
  C7 (as the code has it): the class signatures of two class attribute strings are equal
  exactly when the two strings have the same tokens with the same multiplicities, in any
  order. Permuted attributes therefore give one signature.
\<close>

theorem class_signature_eq_iff_mset:
  "(sorted_classes a = sorted_classes b) = (mset (class_tokens a) = mset (class_tokens b))"
  unfolding sorted_classes_def by (rule sort_eq_iff_mset)

text \<open>
  C7 as stated fails: \<open>a a b\<close> and \<open>a b\<close> have the same set of tokens, and their
  signatures differ, because sorting keeps the repeated token.
\<close>

theorem class_signature_set_counterexample:
  "set (class_tokens ''a a b'') = set (class_tokens ''a b'')
   \<and> sorted_classes ''a a b'' \<noteq> sorted_classes ''a b''"
  by (simp add: sorted_classes_def class_tokens_def is_space_def)

section \<open>Properties of the link extractor\<close>

lemma potential_links_no_stale:
  "list_all (\<lambda>l. \<not> el_stale l) ls \<Longrightarrow>
   potential_links n ls = Inr (filter (is_potential_link n) ls)"
  by (induction ls) auto

lemma py_sorted_desc_set: "set (py_sorted_desc f xs) = set xs"
  by (simp add: py_sorted_desc_def)

lemma py_sorted_desc_hd_max:
  assumes "py_sorted_desc f xs = y # ys" and "x \<in> set xs"
  shows "f x \<le> f y"
proof -
  let ?s = "sort_key f (rev xs)"
  have rv: "rev ?s = y # ys" using assms(1) by (simp add: py_sorted_desc_def)
  then have s: "?s = rev ys @ [y]" by (metis rev_rev_ident rev.simps(2))
  have "sorted (map f ?s)" by simp
  then have "sorted (map f (rev ys) @ [f y])" using s by simp
  then have *: "\<forall>z \<in> set (rev ys). f z \<le> f y" by (simp add: sorted_append)
  have "x \<in> set ?s" using assms(2) by simp
  then have "x \<in> set (rev ys) \<or> x = y" using s by auto
  then show ?thesis using * by auto
qed

text \<open>
  The descendant anchors are scored only when the container is not returned itself: then,
  if all of them can be read and one qualifying anchor has a stripped text strictly longer
  than every other qualifying anchor's, that anchor is the head of the sorted list, in
  whatever order the anchors are enumerated.
\<close>

lemma longest_text_anchor_returned:
  assumes ns: "\<not> el_stale (node c)"
      and np: "\<not> (el_tag (node c) = ''a'' \<and> truthy (el_href (node c)) \<and> el_displayed (node c))"
      and na: "list_all (\<lambda>l. \<not> el_stale l) (anchors c)"
      and a_in: "a \<in> set (anchors c)"
      and a_pot: "is_potential_link (node c) a"
      and longest: "\<forall>b \<in> set (anchors c). is_potential_link (node c) b \<and> b \<noteq> a
                      \<longrightarrow> length (py_strip (el_text b)) < length (py_strip (el_text a))"
      and perm: "mset as' = mset (anchors c)"
  shows "get_main_link_from_container (c\<lparr>anchors := as'\<rparr>) = Inr (Some a)"
proof -
  have seteq: "set as' = set (anchors c)" using perm by (rule mset_eq_setD)
  have na': "list_all (\<lambda>l. \<not> el_stale l) as'" using na seteq by (simp add: list_all_iff)
  let ?ps = "filter (is_potential_link (node c)) as'"
  have pl: "potential_links (node c) as' = Inr ?ps" using na' by (rule potential_links_no_stale)
  have a_ps: "a \<in> set ?ps" using a_in a_pot seteq by simp
  then have "py_sorted_desc link_key ?ps \<noteq> []"
    by (metis py_sorted_desc_set empty_iff empty_set)
  then obtain y ys where srt: "py_sorted_desc link_key ?ps = y # ys"
    by (cases "py_sorted_desc link_key ?ps") auto
  have y_in: "y \<in> set ?ps"
    using srt py_sorted_desc_set[of link_key ?ps] by (metis list.set_intros(1))
  have "link_key a \<le> link_key y" using srt a_ps by (rule py_sorted_desc_hd_max)
  then have "fst (link_key a) \<le> fst (link_key y)" by (auto simp: less_eq_prod_def)
  then have le: "length (py_strip (el_text a)) \<le> length (py_strip (el_text y))"
    by (simp add: link_key_def)
  have "y = a"
  proof (rule ccontr)
    assume "y \<noteq> a"
    moreover have "y \<in> set (anchors c)" "is_potential_link (node c) y"
      using y_in seteq by auto
    ultimately have "length (py_strip (el_text y)) < length (py_strip (el_text a))"
      using longest by blast
    then show False using le by simp
  qed
  then show ?thesis using ns np pl srt
    by (auto simp add: get_main_link_from_container_def)
qed

lemma is_potential_link_anchor_fixture:
  "is_potential_link n (anchor_fixture h t) = (h \<noteq> [] \<and> \<not> py_in ''javascript:void(0)'' h)"
  by (auto simp: is_potential_link_def anchor_fixture_def is_reasonable_size_def)

text \<open>Priority 1 (lines 172-176): a container that can be read and is itself a visible
  anchor with an href is returned, before any descendant anchor is looked at.\<close>

lemma anchor_container_returned_itself:
  assumes "\<not> el_stale (node c)"
      and "el_tag (node c) = ''a''" and "truthy (el_href (node c))" and "el_displayed (node c)"
  shows "get_main_link_from_container c = Inr (Some (node c))"
  using assms by (simp add: get_main_link_from_container_def)

text \<open>
  C8 (as the code has it), for a container that can be read. If the container is itself a
  visible anchor with an href, the extractor returns the container, whatever anchors
  \<open>as'\<close> it contains (readable or not, qualifying or not). Otherwise, if its descendant
  anchors can all be read and one qualifying anchor \<open>a\<close> has a stripped text strictly
  longer than every other qualifying anchor's, the extractor returns \<open>a\<close> for every
  enumeration order \<open>as'\<close> of the anchors.
\<close>

theorem main_link_longest_text:
  assumes ns: "\<not> el_stale (node c)"
  shows "(el_tag (node c) = ''a'' \<and> truthy (el_href (node c)) \<and> el_displayed (node c)
            \<longrightarrow> get_main_link_from_container (c\<lparr>anchors := as'\<rparr>) = Inr (Some (node c)))
       \<and> (\<not> (el_tag (node c) = ''a'' \<and> truthy (el_href (node c)) \<and> el_displayed (node c))
          \<and> list_all (\<lambda>l. \<not> el_stale l) (anchors c)
          \<and> a \<in> set (anchors c) \<and> is_potential_link (node c) a
          \<and> (\<forall>b \<in> set (anchors c). is_potential_link (node c) b \<and> b \<noteq> a
                 \<longrightarrow> length (py_strip (el_text b)) < length (py_strip (el_text a)))
          \<and> mset as' = mset (anchors c)
            \<longrightarrow> get_main_link_from_container (c\<lparr>anchors := as'\<rparr>) = Inr (Some a))"
proof (intro conjI impI)
  assume "el_tag (node c) = ''a'' \<and> truthy (el_href (node c)) \<and> el_displayed (node c)"
  then show "get_main_link_from_container (c\<lparr>anchors := as'\<rparr>) = Inr (Some (node c))"
    using ns anchor_container_returned_itself[of "c\<lparr>anchors := as'\<rparr>"] by simp
next
  assume h: "\<not> (el_tag (node c) = ''a'' \<and> truthy (el_href (node c)) \<and> el_displayed (node c))
          \<and> list_all (\<lambda>l. \<not> el_stale l) (anchors c)
          \<and> a \<in> set (anchors c) \<and> is_potential_link (node c) a
          \<and> (\<forall>b \<in> set (anchors c). is_potential_link (node c) b \<and> b \<noteq> a
                 \<longrightarrow> length (py_strip (el_text b)) < length (py_strip (el_text a)))
          \<and> mset as' = mset (anchors c)"
  show "get_main_link_from_container (c\<lparr>anchors := as'\<rparr>) = Inr (Some a)"
    by (rule longest_text_anchor_returned[OF ns]) (use h in blast)+
qed

text \<open>Two anchors with texts of lengths 3 and 10 in a block container: the anchor of
  length 10 is returned in both orders. The same two anchors in a container that is
  itself a visible anchor with an href and a text: the container is returned.\<close>

theorem main_link_longest_text_witness:
  "get_main_link_from_container
     \<lparr>node = div_fixture,
      anchors = [anchor_fixture ''/p/2'' ''abc'', anchor_fixture ''/p/1'' ''0123456789'']\<rparr>
     = Inr (Some (anchor_fixture ''/p/1'' ''0123456789''))
   \<and> get_main_link_from_container
     \<lparr>node = div_fixture,
      anchors = [anchor_fixture ''/p/1'' ''0123456789'', anchor_fixture ''/p/2'' ''abc'']\<rparr>
     = Inr (Some (anchor_fixture ''/p/1'' ''0123456789''))
   \<and> get_main_link_from_container
     \<lparr>node = anchor_fixture ''/card'' ''Product card'',
      anchors = [anchor_fixture ''/p/1'' ''0123456789'', anchor_fixture ''/p/2'' ''abc'']\<rparr>
     = Inr (Some (anchor_fixture ''/card'' ''Product card''))"
proof -
  let ?a3 = "anchor_fixture ''/p/2'' ''abc''"
  let ?a10 = "anchor_fixture ''/p/1'' ''0123456789''"
  let ?card = "anchor_fixture ''/card'' ''Product card''"
  let ?c = "\<lparr>node = div_fixture, anchors = [?a3, ?a10]\<rparr>"
  let ?k = "\<lparr>node = ?card, anchors = []\<rparr>"
  have len: "length (py_strip (el_text ?a3)) < length (py_strip (el_text ?a10))"
    by (simp add: anchor_fixture_def py_strip_def is_space_def)
  have h1: "\<not> el_stale (node ?c)" by (simp add: div_fixture_def)
  have h2: "\<not> (el_tag (node ?c) = ''a'' \<and> truthy (el_href (node ?c)) \<and> el_displayed (node ?c))"
    by (simp add: div_fixture_def)
  have h3: "list_all (\<lambda>l. \<not> el_stale l) (anchors ?c)" by (simp add: anchor_fixture_def)
  have h4: "?a10 \<in> set (anchors ?c)" by simp
  have h5: "is_potential_link (node ?c) ?a10" by (simp add: is_potential_link_anchor_fixture)
  have h6: "\<forall>b \<in> set (anchors ?c). is_potential_link (node ?c) b \<and> b \<noteq> ?a10
              \<longrightarrow> length (py_strip (el_text b)) < length (py_strip (el_text ?a10))"
    using len by auto
  have r1: "get_main_link_from_container (?c\<lparr>anchors := [?a3, ?a10]\<rparr>) = Inr (Some ?a10)"
    using main_link_longest_text[OF h1, of "[?a3, ?a10]" ?a10] h2 h3 h4 h5 h6 by simp
  have r2: "get_main_link_from_container (?c\<lparr>anchors := [?a10, ?a3]\<rparr>) = Inr (Some ?a10)"
    using main_link_longest_text[OF h1, of "[?a10, ?a3]" ?a10] h2 h3 h4 h5 h6 by simp
  have k1: "\<not> el_stale (node ?k)" by (simp add: anchor_fixture_def)
  have k2: "el_tag (node ?k) = ''a'' \<and> truthy (el_href (node ?k)) \<and> el_displayed (node ?k)"
    by (simp add: anchor_fixture_def)
  have r3: "get_main_link_from_container (?k\<lparr>anchors := [?a10, ?a3]\<rparr>) = Inr (Some ?card)"
    using main_link_longest_text[OF k1, of "[?a10, ?a3]"] k2 by simp
  show ?thesis using r1 r2 r3 by simp
qed

text \<open>
  C8 as stated fails for a container that is itself a visible anchor with an href: the
  extractor returns the container (lines 172-176), although its descendant anchor of text
  length 10 qualifies and is strictly the longest.
\<close>

theorem main_link_anchor_container_counterexample:
  "is_potential_link (anchor_fixture ''/card'' []) (anchor_fixture ''/p/1'' ''0123456789'')
   \<and> is_potential_link (anchor_fixture ''/card'' []) (anchor_fixture ''/p/2'' ''abc'')
   \<and> length (py_strip (el_text (anchor_fixture ''/p/2'' ''abc'')))
       < length (py_strip (el_text (anchor_fixture ''/p/1'' ''0123456789'')))
   \<and> get_main_link_from_container
       \<lparr>node = anchor_fixture ''/card'' [],
        anchors = [anchor_fixture ''/p/1'' ''0123456789'', anchor_fixture ''/p/2'' ''abc'']\<rparr>
       = Inr (Some (anchor_fixture ''/card'' []))
   \<and> anchor_fixture ''/card'' [] \<noteq> anchor_fixture ''/p/1'' ''0123456789''"
  by (simp add: is_potential_link_anchor_fixture get_main_link_from_container_def)
     (simp add: anchor_fixture_def py_strip_def is_space_def)

section \<open>Properties of list discovery\<close>

lemmas fixture_defs = tile_def empty_tile_def div_fixture_def anchor_fixture_def

lemma get_main_link_tile:
  "get_main_link_from_container (tile h k) =
     (if h = [] \<or> py_in ''javascript:void(0)'' h then Inr None
      else Inr (Some (anchor_fixture h ''Product title'')))"
  by (simp add: get_main_link_from_container_def fixture_defs
      is_potential_link_def py_sorted_desc_def py_strip_def is_space_def)

lemma get_main_link_empty_tile:
  "get_main_link_from_container (empty_tile k) = Inr None"
  by (simp add: get_main_link_from_container_def fixture_defs py_sorted_desc_def)

lemma scroll_retry_all_none:
  assumes "\<forall>k \<le> max_scroll_attempts. get_main_link_from_container (c k) = Inr None"
  shows "scroll_retry c n = Inr None"
  using assms
proof (induction c n rule: scroll_retry.induct)
  case (1 c n)
  show ?case
  proof (cases "n < max_scroll_attempts")
    case True
    then have g: "get_main_link_from_container (c (Suc n)) = Inr None"
      using "1.prems" by simp
    have "scroll_retry c (Suc n) = Inr None"
      using "1.IH"[OF True g] "1.prems" by simp
    then show ?thesis using True g by (subst scroll_retry.simps) simp
  next
    case False
    then show ?thesis by (subst scroll_retry.simps) simp
  qed
qed

lemma process_container_failed:
  assumes "\<forall>k \<le> max_scroll_attempts. get_main_link_from_container (c k) = Inr None"
  shows "process_container c s =
           Inr (count_none (s\<lparr>containers_entered := containers_entered s + 1\<rparr>))"
  using assms scroll_retry_all_none[OF assms, of 0]
  by (simp add: process_container_def Let_def)

lemma process_container_failed_after_failure:
  assumes "get_main_link_from_container (c 0) = Inr None" and "last_main_link s = None"
  shows "process_container c s =
           Inr (count_none (s\<lparr>containers_entered := containers_entered s + 1\<rparr>))"
  using assms by (simp add: process_container_def Let_def)

lemma two_failures_break:
  assumes f1: "\<forall>k \<le> max_scroll_attempts. get_main_link_from_container (f1 k) = Inr None"
      and f2: "get_main_link_from_container (f2 0) = Inr None"
  shows "process_containers (f1 # f2 # rest) s = process_containers [f1, f2] s"
proof -
  let ?s1 = "count_none (s\<lparr>containers_entered := containers_entered s + 1\<rparr>)"
  have p1: "process_container f1 s = Inr ?s1" using f1 by (rule process_container_failed)
  have l1: "last_main_link ?s1 = None" by (simp add: count_none_def)
  let ?s2 = "count_none (?s1\<lparr>containers_entered := containers_entered ?s1 + 1\<rparr>)"
  have p2: "process_container f2 ?s1 = Inr ?s2"
    using f2 l1 by (rule process_container_failed_after_failure)
  have c2: "consecutive_none_returns ?s2 \<ge> 2" by (simp add: count_none_def)
  show ?thesis using p1 p2 c2 by simp
qed

lemma process_containers_append_failures:
  assumes f1: "\<forall>k \<le> max_scroll_attempts. get_main_link_from_container (f1 k) = Inr None"
      and f2: "get_main_link_from_container (f2 0) = Inr None"
  shows "process_containers (pre @ f1 # f2 # rest) s = process_containers (pre @ [f1, f2]) s"
proof (induction pre arbitrary: s)
  case Nil
  show ?case using f1 f2 two_failures_break[of f1 f2 rest s] by simp
next
  case (Cons c pre)
  show ?case
  proof (cases "process_container c s")
    case (Inl e)
    then show ?thesis by simp
  next
    case (Inr s')
    then show ?thesis using Cons.IH[of s'] by simp
  qed
qed

lemma record_link_entered: "containers_entered (record_link l s) = containers_entered s"
  by (simp add: record_link_def Let_def)

lemma count_none_entered: "containers_entered (count_none s) = containers_entered s"
  by (simp add: count_none_def)

lemma process_container_entered:
  assumes "process_container c s = Inr s'"
  shows "containers_entered s' = containers_entered s + 1"
proof -
  let ?s = "s\<lparr>containers_entered := containers_entered s + 1\<rparr>"
  have "s' = count_none ?s \<or> (\<exists>l. s' = record_link l ?s)"
    using assms unfolding process_container_def Let_def
    by (auto split: sum.splits option.splits if_splits)
  then show ?thesis by (auto simp: record_link_entered count_none_entered)
qed

lemma process_containers_entered_le:
  "process_containers cs s = Inr s' \<Longrightarrow>
   containers_entered s' \<le> containers_entered s + length cs"
proof (induction cs arbitrary: s)
  case Nil
  then show ?case by simp
next
  case (Cons c cs)
  then obtain s1 where p: "process_container c s = Inr s1"
    by (cases "process_container c s") auto
  have e: "containers_entered s1 = containers_entered s + 1"
    using p by (rule process_container_entered)
  show ?case
  proof (cases "consecutive_none_returns s1 \<ge> 2")
    case True
    then have "s' = s1" using Cons.prems p by simp
    then show ?thesis using e by simp
  next
    case False
    then have "process_containers cs s1 = Inr s'" using Cons.prems p by simp
    then have "containers_entered s' \<le> containers_entered s1 + length cs" by (rule Cons.IH)
    then show ?thesis using e by simp
  qed
qed

lemma process_containers_entered_all:
  "process_containers cs s = Inr s' \<Longrightarrow> consecutive_none_returns s' < 2 \<Longrightarrow>
   containers_entered s' = containers_entered s + length cs"
proof (induction cs arbitrary: s)
  case Nil
  then show ?case by simp
next
  case (Cons c cs)
  then obtain s1 where p: "process_container c s = Inr s1"
    by (cases "process_container c s") auto
  have e: "containers_entered s1 = containers_entered s + 1"
    using p by (rule process_container_entered)
  show ?case
  proof (cases "consecutive_none_returns s1 \<ge> 2")
    case True
    then have "s' = s1" using Cons.prems p by simp
    then show ?thesis using True Cons.prems by simp
  next
    case False
    then have "process_containers cs s1 = Inr s'" using Cons.prems p by simp
    then have "containers_entered s' = containers_entered s1 + length cs"
      using Cons.prems(2) by (rule Cons.IH)
    then show ?thesis using e by simp
  qed
qed

text \<open>
  C4: when two containers in a row fail (the first failing on the initial call and on all
  five scroll retries, so that it counts as a failure whether or not it is retried; the
  second failing on its initial call), the container loop stops at the second of them: the
  containers after it have no influence on the outcome and are never entered, so at most
  \<open>length pre + 2\<close> containers are entered. For the outcomes success, fail, fail the
  loop enters exactly three containers.
\<close>

theorem consecutive_failures_stop_candidate:
  assumes f1: "\<forall>k \<le> max_scroll_attempts. get_main_link_from_container (f1 k) = Inr None"
      and f2: "get_main_link_from_container (f2 0) = Inr None"
  shows "process_containers (pre @ f1 # f2 # rest) s = process_containers (pre @ [f1, f2]) s
         \<and> (\<forall>s'. process_containers (pre @ f1 # f2 # rest) s = Inr s'
                \<longrightarrow> containers_entered s' \<le> containers_entered s + length pre + 2)"
proof (intro conjI allI impI)
  show eq: "process_containers (pre @ f1 # f2 # rest) s = process_containers (pre @ [f1, f2]) s"
    using f1 f2 by (rule process_containers_append_failures)
  fix s'
  assume "process_containers (pre @ f1 # f2 # rest) s = Inr s'"
  then have "process_containers (pre @ [f1, f2]) s = Inr s'" using eq by simp
  then have "containers_entered s' \<le> containers_entered s + length (pre @ [f1, f2])"
    by (rule process_containers_entered_le)
  then show "containers_entered s' \<le> containers_entered s + length pre + 2" by simp
qed


lemma run4: "process_containers [tile ''u1'', empty_tile, empty_tile, tile ''u2''] initial_group_state
           = Inr \<lparr>links_from_this_class_group = [anchor_fixture ''u1'' ''Product title''],
                  processed_hrefs_for_group = {''u1''},
                  consecutive_none_returns = 2, last_main_link = None, containers_entered = 3\<rparr>"
  by (simp add: process_container_def get_main_link_tile get_main_link_empty_tile
      scroll_retry_all_none initial_group_state_def record_link_def count_none_def Let_def
      anchor_fixture_def)

theorem consecutive_failures_witness:
  "process_containers ([tile ''u1''] @ empty_tile # empty_tile # [tile ''u2'']) initial_group_state
     = process_containers ([tile ''u1''] @ [empty_tile, empty_tile]) initial_group_state
   \<and> (case process_containers [tile ''u1'', empty_tile, empty_tile, tile ''u2''] initial_group_state of
         Inl e \<Rightarrow> False
       | Inr s' \<Rightarrow> containers_entered s' = 3 \<and> consecutive_none_returns s' = 2)"
proof -
  have a: "\<forall>k \<le> max_scroll_attempts. get_main_link_from_container (empty_tile k) = Inr None"
    by (simp add: get_main_link_empty_tile)
  have b: "get_main_link_from_container (empty_tile 0) = Inr None"
    by (simp add: get_main_link_empty_tile)
  note t = consecutive_failures_stop_candidate
             [of empty_tile empty_tile "[tile ''u1'']" "[tile ''u2'']" initial_group_state, OF a b]
  have c1: "process_containers ([tile ''u1''] @ empty_tile # empty_tile # [tile ''u2'']) initial_group_state
     = process_containers ([tile ''u1''] @ [empty_tile, empty_tile]) initial_group_state"
    using t by blast
  have c2: "(case process_containers [tile ''u1'', empty_tile, empty_tile, tile ''u2''] initial_group_state of
         Inl e \<Rightarrow> False
       | Inr s' \<Rightarrow> containers_entered s' = 3 \<and> consecutive_none_returns s' = 2)"
    by (subst run4) simp
  show ?thesis by (rule conjI[OF c1 c2])
qed

lemma try_classes_append:
  "try_classes fe (xs @ ys) =
     (case try_classes fe xs of Some r \<Rightarrow> Some r | None \<Rightarrow> try_classes fe ys)"
  by (induction fe xs rule: try_classes.induct) (auto simp: Let_def split: sum.splits)

lemma process_tile:
  "h \<noteq> [] \<Longrightarrow> \<not> py_in ''javascript:void(0)'' h \<Longrightarrow>
   process_container (tile h) s =
     Inr (record_link (anchor_fixture h ''Product title'')
            (s\<lparr>containers_entered := containers_entered s + 1\<rparr>))"
  by (simp add: process_container_def get_main_link_tile Let_def)

lemma process_empty_tile:
  "process_container empty_tile s =
     Inr (count_none (s\<lparr>containers_entered := containers_entered s + 1\<rparr>))"
  by (rule process_container_failed) (simp add: get_main_link_empty_tile)

lemma sorted_item: "sorted_classes ''item'' = [''item'']"
  by (simp add: sorted_classes_def class_tokens_def is_space_def)

lemma count_item: "count_classes (replicate n item_element) [([''item''], k)] = [([''item''], k + n)]"
  by (induction n arbitrary: k) (simp_all add: count_element_def item_element_def sorted_item Let_def)

lemma run_ten:
  "process_containers ten_tiles initial_group_state =
     Inr \<lparr>links_from_this_class_group = ten_links,
          processed_hrefs_for_group = set [''/p/0'', ''/p/1'', ''/p/2'', ''/p/3'', ''/p/4'',
                  ''/p/5'', ''/p/6'', ''/p/7'', ''/p/8'', ''/p/9''],
          consecutive_none_returns = 0,
          last_main_link = Some (anchor_fixture ''/p/9'' ''Product title''),
          containers_entered = 10\<rparr>"
  by (simp add: ten_tiles_def ten_links_def process_tile initial_group_state_def record_link_def
        anchor_fixture_def insert_commute)

lemma dict_incr_keys: "fst ` set (dict_incr k kvs) = insert k (fst ` set kvs)"
  by (induction k kvs rule: dict_incr.induct) auto

lemma count_element_keys:
  "[] \<notin> fst ` set cc \<Longrightarrow> [] \<notin> fst ` set (count_element e cc)"
  by (auto simp: count_element_def Let_def dict_incr_keys)

lemma count_classes_keys:
  "[] \<notin> fst ` set cc \<Longrightarrow> [] \<notin> fst ` set (count_classes es cc)"
  by (induction es arbitrary: cc) (auto dest: count_element_keys)

lemma sorted_frequent_classes_keys:
  "(class_tuple, freq) \<in> set (sorted_frequent_classes es) \<Longrightarrow> class_tuple \<noteq> []"
proof -
  assume a: "(class_tuple, freq) \<in> set (sorted_frequent_classes es)"
  then have "(class_tuple, freq) \<in> set (count_classes es [])"
    by (simp add: sorted_frequent_classes_def py_sorted_desc_def)
  then have "class_tuple \<in> fst ` set (count_classes es [])" by force
  moreover have "[] \<notin> fst ` set (count_classes es [])" by (rule count_classes_keys) simp
  ultimately show ?thesis by blast
qed

lemma try_classes_candidate:
  assumes "class_tuple \<noteq> []"
      and "fe (''.'' @ py_join ''.'' class_tuple) = Inr cs"
      and "min_products_for_list \<le> length cs"
      and "process_containers cs initial_group_state = Inr s"
  shows "try_classes fe ((class_tuple, freq) # remaining) =
           (if min_products_for_list \<le> length (links_from_this_class_group s)
            then Some (links_from_this_class_group s, ''.'' @ py_join ''.'' class_tuple)
            else try_classes fe remaining)"
  using assms by (simp add: Let_def)

text \<open>
  C1 (as the code has it): the threshold is tested once the container loop of a candidate
  has ended (line 351). If no earlier candidate gave a result, and the candidate has at
  least 10 containers, and its loop ends with at least 10 unique links, then discovery
  returns that link list and the candidate's selector, whatever candidates remain; and
  unless the consecutive-failure rule cut the loop short, every container of the candidate
  was entered, also those after the threshold was reached.
\<close>

theorem first_qualifying_candidate_wins:
  assumes cands: "sorted_frequent_classes elements_to_analyze = before @ (class_tuple, freq) # remaining"
      and before: "try_classes find_elements before = None"
      and q: "find_elements (''.'' @ py_join ''.'' class_tuple) = Inr visible_containers"
      and n: "min_products_for_list \<le> length visible_containers"
      and run: "process_containers visible_containers initial_group_state = Inr s"
      and enough: "min_products_for_list \<le> length (links_from_this_class_group s)"
  shows "find_products elements_to_analyze find_elements =
           Some (links_from_this_class_group s, ''.'' @ py_join ''.'' class_tuple)
         \<and> (consecutive_none_returns s < 2 \<longrightarrow>
              containers_entered s = length visible_containers)"
proof
  have ne: "class_tuple \<noteq> []"
    by (rule sorted_frequent_classes_keys[of class_tuple freq elements_to_analyze])
       (simp add: cands)
  show "find_products elements_to_analyze find_elements =
           Some (links_from_this_class_group s, ''.'' @ py_join ''.'' class_tuple)"
    unfolding find_products_def cands try_classes_append
    using before try_classes_candidate[of class_tuple find_elements visible_containers s freq remaining, OF ne q n run] enough by simp
  show "consecutive_none_returns s < 2 \<longrightarrow> containers_entered s = length visible_containers"
    using process_containers_entered_all[OF run] by (simp add: initial_group_state_def)
qed

text \<open>
  C3 (as the code has it): a candidate whose loop was cut short by the consecutive-failure
  rule is still put to the threshold test of line 351: its link list is the result exactly
  when it already holds at least 10 unique links; otherwise discovery goes on with the
  remaining candidates.
\<close>

theorem abandoned_candidate_result:
  assumes cands: "sorted_frequent_classes elements_to_analyze = before @ (class_tuple, freq) # remaining"
      and before: "try_classes find_elements before = None"
      and q: "find_elements (''.'' @ py_join ''.'' class_tuple) = Inr visible_containers"
      and n: "min_products_for_list \<le> length visible_containers"
      and run: "process_containers visible_containers initial_group_state = Inr s"
      and abandoned: "2 \<le> consecutive_none_returns s"
  shows "find_products elements_to_analyze find_elements =
           (if min_products_for_list \<le> length (links_from_this_class_group s)
            then Some (links_from_this_class_group s, ''.'' @ py_join ''.'' class_tuple)
            else try_classes find_elements remaining)"
proof -
  have ne: "class_tuple \<noteq> []"
    by (rule sorted_frequent_classes_keys[of class_tuple freq elements_to_analyze])
       (simp add: cands)
  show ?thesis
    unfolding find_products_def cands try_classes_append
    using before try_classes_candidate[of class_tuple find_elements visible_containers s freq remaining, OF ne q n run] by simp
qed

lemma count_item_from_empty:
  "count_classes (replicate (Suc n) item_element) [] = [([''item''], Suc n)]"
  using count_item[of n 1]
  by (simp add: count_element_def item_element_def sorted_item Let_def)

lemma frequent_item:
  "min_products_for_list \<le> Suc n \<Longrightarrow>
   sorted_frequent_classes (replicate (Suc n) item_element) = [([''item''], Suc n)]"
  unfolding sorted_frequent_classes_def count_item_from_empty
  by (simp add: py_sorted_desc_def)

lemma sorted_other: "sorted_classes ''other'' = [''other'']"
  by (simp add: sorted_classes_def class_tokens_def is_space_def)

lemma count_classes_append:
  "count_classes (xs @ ys) cc = count_classes ys (count_classes xs cc)"
  by (induction xs arbitrary: cc) simp_all

lemma count_other:
  "count_classes (replicate n other_element) [([''item''], m), ([''other''], k)]
     = [([''item''], m), ([''other''], k + n)]"
  by (induction n arbitrary: k)
     (simp_all add: count_element_def other_element_def sorted_other Let_def)

lemma count_two_class_page:
  "count_classes two_class_page [] = [([''item''], 11), ([''other''], 10)]"
proof -
  have a: "count_classes (replicate 11 item_element) [] = [([''item''], 11)]"
    using count_item_from_empty[of 10] by simp
  have b: "count_classes (replicate 10 other_element) [([''item''], 11)]
             = [([''item''], 11), ([''other''], 10)]"
    using count_other[of 9 11 1]
    by (simp add: numeral_eq_Suc count_element_def other_element_def sorted_other Let_def)
  show ?thesis unfolding two_class_page_def count_classes_append a b ..
qed

lemma frequent_two_class_page:
  "sorted_frequent_classes two_class_page = [([''item''], 11), ([''other''], 10)]"
  unfolding sorted_frequent_classes_def count_two_class_page
  by (simp add: py_sorted_desc_def min_products_for_list_def)

lemma run_ten': "process_containers ten_tiles initial_group_state = Inr state_after_ten"
  unfolding state_after_ten_def by (rule run_ten)

lemma process_containers_append:
  "process_containers xs s = Inr s' \<Longrightarrow> consecutive_none_returns s' < 2 \<Longrightarrow>
   process_containers (xs @ ys) s = process_containers ys s'"
proof (induction xs arbitrary: s)
  case Nil
  then show ?case by simp
next
  case (Cons c cs)
  then obtain s1 where p: "process_container c s = Inr s1"
    by (cases "process_container c s") auto
  show ?case
  proof (cases "consecutive_none_returns s1 \<ge> 2")
    case True
    then have "s' = s1" using Cons.prems p by simp
    then show ?thesis using True Cons.prems by simp
  next
    case False
    then have "process_containers cs s1 = Inr s'" using Cons.prems p by simp
    then have "process_containers (cs @ ys) s1 = process_containers ys s'"
      using Cons.prems(2) by (rule Cons.IH)
    then show ?thesis using p False by simp
  qed
qed

lemma run_eleven:
  "process_containers eleven_tiles initial_group_state =
     Inr (record_link (anchor_fixture ''/p/10'' ''Product title'')
            (state_after_ten\<lparr>containers_entered := 11\<rparr>))"
proof -
  have "process_containers eleven_tiles initial_group_state
          = process_containers [tile ''/p/10''] state_after_ten"
    unfolding eleven_tiles_def
    by (rule process_containers_append[OF run_ten']) (simp add: state_after_ten_def)
  also have "\<dots> = Inr (record_link (anchor_fixture ''/p/10'' ''Product title'')
            (state_after_ten\<lparr>containers_entered := 11\<rparr>))"
    by (simp add: process_tile record_link_def state_after_ten_def)
  finally show ?thesis .
qed

lemma links_after_eleven:
  "links_from_this_class_group (record_link (anchor_fixture ''/p/10'' ''Product title'')
            (state_after_ten\<lparr>containers_entered := 11\<rparr>))
     = ten_links @ [anchor_fixture ''/p/10'' ''Product title'']"
  by (simp add: record_link_def state_after_ten_def anchor_fixture_def)

lemma run_abandoned_late:
  "process_containers abandoned_late initial_group_state =
     Inr (state_after_ten\<lparr>consecutive_none_returns := 2, last_main_link := None,
                           containers_entered := 12\<rparr>)"
proof -
  have "process_containers abandoned_late initial_group_state
          = process_containers [empty_tile, empty_tile, tile ''/p/10''] state_after_ten"
    unfolding abandoned_late_def
    by (rule process_containers_append[OF run_ten']) (simp add: state_after_ten_def)
  also have "\<dots> = Inr (state_after_ten\<lparr>consecutive_none_returns := 2, last_main_link := None,
                           containers_entered := 12\<rparr>)"
    by (simp add: process_empty_tile count_none_def state_after_ten_def)
  finally show ?thesis .
qed

lemma run_abandoned_early:
  "process_containers abandoned_early initial_group_state =
     Inr \<lparr>links_from_this_class_group = [anchor_fixture ''/p/0'' ''Product title''],
          processed_hrefs_for_group = {''/p/0''},
          consecutive_none_returns = 2, last_main_link = None, containers_entered = 3\<rparr>"
  by (simp add: abandoned_early_def process_tile process_empty_tile initial_group_state_def
        record_link_def count_none_def anchor_fixture_def)

lemma run_other:
  "process_containers other_tiles initial_group_state =
     Inr \<lparr>links_from_this_class_group = other_links,
          processed_hrefs_for_group = set [''/o/0'', ''/o/1'', ''/o/2'', ''/o/3'', ''/o/4'',
                  ''/o/5'', ''/o/6'', ''/o/7'', ''/o/8'', ''/o/9''],
          consecutive_none_returns = 0,
          last_main_link = Some (anchor_fixture ''/o/9'' ''Product title''),
          containers_entered = 10\<rparr>"
  by (simp add: other_tiles_def other_links_def process_tile initial_group_state_def
        record_link_def anchor_fixture_def insert_commute)

lemma selector_item: "''.'' @ py_join ''.'' [''item''] = ''.item''"
  by simp

lemma selector_other: "''.'' @ py_join ''.'' [''other''] = ''.other''"
  by simp

lemma length_fixtures:
  "length ten_tiles = 10" "length other_tiles = 10" "length eleven_tiles = 11"
  "length abandoned_late = 13" "length abandoned_early = 11"
  "length ten_links = 10" "length other_links = 10"
  by (simp_all add: ten_tiles_def other_tiles_def eleven_tiles_def abandoned_late_def
        abandoned_early_def ten_links_def other_links_def)

text \<open>A page with eleven \<open>item\<close> tiles and ten \<open>other\<close> tiles: all eleven links of
  the first candidate are returned and the second candidate is not used.\<close>

theorem first_qualifying_candidate_witness:
  "find_products two_class_page (css_query eleven_tiles other_tiles)
     = Some (ten_links @ [anchor_fixture ''/p/10'' ''Product title''], ''.item'')"
proof -
  let ?s = "record_link (anchor_fixture ''/p/10'' ''Product title'')
              (state_after_ten\<lparr>containers_entered := 11\<rparr>)"
  have cands: "sorted_frequent_classes two_class_page
                 = [] @ ([''item''], 11) # [([''other''], 10)]"
    by (simp add: frequent_two_class_page)
  have before: "try_classes (css_query eleven_tiles other_tiles) [] = None" by simp
  have q: "css_query eleven_tiles other_tiles (''.'' @ py_join ''.'' [''item'']) = Inr eleven_tiles"
    by (simp add: css_query_def)
  have n: "min_products_for_list \<le> length eleven_tiles"
    by (simp add: length_fixtures min_products_for_list_def)
  have enough: "min_products_for_list \<le> length (links_from_this_class_group ?s)"
    by (simp add: links_after_eleven length_fixtures min_products_for_list_def)
  note t = first_qualifying_candidate_wins
             [of two_class_page "[]" "[''item'']" 11 "[([''other''], 10)]"
                 "css_query eleven_tiles other_tiles" eleven_tiles ?s,
              OF cands before q n run_eleven enough]
  then have "find_products two_class_page (css_query eleven_tiles other_tiles)
     = Some (links_from_this_class_group ?s, ''.'' @ py_join ''.'' [''item''])"
    by (rule conjunct1)
  then show ?thesis by (simp only: links_after_eleven selector_item)
qed

text \<open>
  C1 as stated fails: with eleven tiles of distinct hrefs, ten unique links are held after
  the tenth container, yet the eleventh container is entered and its link is part of the
  returned list.
\<close>

theorem return_only_after_loop_counterexample:
  "(case process_containers (take 10 eleven_tiles) initial_group_state of
      Inl e \<Rightarrow> False
    | Inr s \<Rightarrow> length (links_from_this_class_group s) = min_products_for_list)
   \<and> (case process_containers eleven_tiles initial_group_state of
         Inl e \<Rightarrow> False
       | Inr s \<Rightarrow> containers_entered s = 11 \<and> length (links_from_this_class_group s) = 11)
   \<and> find_products (replicate 11 item_element) (\<lambda>sel. Inr eleven_tiles)
       = Some (ten_links @ [anchor_fixture ''/p/10'' ''Product title''], ''.item'')"
proof (intro conjI)
  have "take 10 eleven_tiles = ten_tiles"
    by (simp add: eleven_tiles_def length_fixtures)
  then show "case process_containers (take 10 eleven_tiles) initial_group_state of
      Inl e \<Rightarrow> False
    | Inr s \<Rightarrow> length (links_from_this_class_group s) = min_products_for_list"
    by (simp add: run_ten' state_after_ten_def length_fixtures min_products_for_list_def)
  show "case process_containers eleven_tiles initial_group_state of
         Inl e \<Rightarrow> False
       | Inr s \<Rightarrow> containers_entered s = 11 \<and> length (links_from_this_class_group s) = 11"
    by (simp add: run_eleven links_after_eleven length_fixtures)
       (simp add: record_link_def Let_def)
  have f: "sorted_frequent_classes (replicate 11 item_element) = [([''item''], 11)]"
    using frequent_item[of 10] by (simp add: min_products_for_list_def)
  show "find_products (replicate 11 item_element) (\<lambda>sel. Inr eleven_tiles)
       = Some (ten_links @ [anchor_fixture ''/p/10'' ''Product title''], ''.item'')"
    unfolding find_products_def f
    by (simp add: Let_def run_eleven links_after_eleven length_fixtures min_products_for_list_def)
qed

text \<open>The first candidate is abandoned after one link, so the second one is used.\<close>

theorem abandoned_candidate_witness:
  "find_products two_class_page (css_query abandoned_early other_tiles)
     = Some (other_links, ''.other'')"
proof -
  let ?s = "\<lparr>links_from_this_class_group = [anchor_fixture ''/p/0'' ''Product title''],
          processed_hrefs_for_group = {''/p/0''},
          consecutive_none_returns = 2, last_main_link = None, containers_entered = 3\<rparr>"
  let ?fe = "css_query abandoned_early other_tiles"
  have cands: "sorted_frequent_classes two_class_page
                 = [] @ ([''item''], 11) # [([''other''], 10)]"
    by (simp add: frequent_two_class_page)
  have before: "try_classes ?fe [] = None" by simp
  have q: "?fe (''.'' @ py_join ''.'' [''item'']) = Inr abandoned_early"
    by (simp add: css_query_def)
  have n: "min_products_for_list \<le> length abandoned_early"
    by (simp add: length_fixtures min_products_for_list_def)
  have ab: "2 \<le> consecutive_none_returns ?s" by simp
  note t = abandoned_candidate_result
             [of two_class_page "[]" "[''item'']" 11 "[([''other''], 10)]"
                 ?fe abandoned_early ?s,
              OF cands before q n run_abandoned_early ab]
  have few: "\<not> min_products_for_list \<le> length (links_from_this_class_group ?s)"
    by (simp add: min_products_for_list_def)
  have nxt: "try_classes ?fe [([''other''], 10)] = Some (other_links, ''.other'')"
    by (simp add: Let_def css_query_def run_other length_fixtures min_products_for_list_def)
  show ?thesis using t few nxt by (simp only: if_False)
qed

text \<open>
  C3 as stated fails: ten tiles followed by two failing containers and one more tile. The
  loop breaks at the twelfth container with two consecutive failures, and the ten links of
  this abandoned candidate are returned as the result.
\<close>

theorem abandoned_candidate_returned_counterexample:
  "(case process_containers abandoned_late initial_group_state of
      Inl e \<Rightarrow> False
    | Inr s \<Rightarrow> consecutive_none_returns s = 2 \<and> containers_entered s = 12)
   \<and> length abandoned_late = 13
   \<and> find_products (replicate 13 item_element) (\<lambda>sel. Inr abandoned_late)
       = Some (ten_links, ''.item'')"
proof (intro conjI)
  show "case process_containers abandoned_late initial_group_state of
      Inl e \<Rightarrow> False
    | Inr s \<Rightarrow> consecutive_none_returns s = 2 \<and> containers_entered s = 12"
    by (simp add: run_abandoned_late)
  show "length abandoned_late = 13" by (simp add: length_fixtures)
  have f: "sorted_frequent_classes (replicate 13 item_element) = [([''item''], 13)]"
    using frequent_item[of 12] by (simp add: min_products_for_list_def)
  show "find_products (replicate 13 item_element) (\<lambda>sel. Inr abandoned_late)
       = Some (ten_links, ''.item'')"
    unfolding find_products_def f
    by (simp add: Let_def run_abandoned_late length_fixtures min_products_for_list_def
          state_after_ten_def)
qed

section \<open>Properties of the fallback extractor\<close>

lemma deepseek_call_failed:
  "fallback_failed (client m) \<Longrightarrow>
   deepseek_call client m = Inr None \<or> (\<exists>e. deepseek_call client m = Inl e)"
  by (cases "client m" rule: fallback_failed.cases) (auto simp: deepseek_call_def Let_def)

lemma extract_with_deepseek_total: "\<exists>r. extract_with_deepseek client html target_field = Inr r"
  by (auto simp: extract_with_deepseek_def split: option.splits sum.splits)

lemma extract_with_deepseek_failed:
  assumes "\<forall>m. fallback_failed (client m)"
  shows "extract_with_deepseek client html target_field = Inr None"
proof (cases "prompt_for target_field")
  case None
  then show ?thesis by (simp add: extract_with_deepseek_def)
next
  case (Some prompt)
  let ?m = "user_message prompt (truncate_html html)"
  have "fallback_failed (client ?m)" using assms by simp
  then have "deepseek_call client ?m = Inr None \<or> (\<exists>e. deepseek_call client ?m = Inl e)"
    by (rule deepseek_call_failed)
  then show ?thesis
    unfolding extract_with_deepseek_def Some by auto
qed

lemma fallback_field_url:
  "field \<noteq> ''url'' \<Longrightarrow> fallback_field page fallback field info ''url'' = info ''url''"
  by (auto simp: fallback_field_def split: sum.splits)

lemma fallback_field_absent:
  "(\<forall>h. fallback h field = Inr None \<or> (\<exists>e. fallback h field = Inl e)) \<Longrightarrow>
   fallback_field page fallback field info = info"
  by (auto simp: fallback_field_def split: sum.splits) (metis Inr_inject sum.distinct(1) truthy.simps(1))+

lemma extract_product_info_returns:
  "\<exists>info. extract_product_info (page\<lparr>url_read := Inr u\<rparr>) fallback = Inr info
          \<and> info ''url'' = Some u"
  by (auto simp: extract_product_info_def Let_def fallback_field_url)

text \<open>
  C9: \<open>extract_with_deepseek\<close> never raises, whatever the API call does; when the call
  fails (exception, empty or missing response, an explicit \<open>None\<close> answer) or the target
  field is unsupported, it returns \<open>None\<close>. Record extraction returns a record, with its
  url, for every fallback extractor, also one that raises; and a fallback that only fails
  gives the same record as a fallback that finds nothing.
\<close>

theorem fallback_failure_never_aborts:
  "(\<exists>r. extract_with_deepseek client html target_field = Inr r)
   \<and> ((\<forall>m. fallback_failed (client m)) \<longrightarrow>
         extract_with_deepseek client html target_field = Inr None)
   \<and> (prompt_for target_field = None \<longrightarrow>
         extract_with_deepseek client html target_field = Inr None)
   \<and> (\<exists>info. extract_product_info (page\<lparr>url_read := Inr u\<rparr>) fallback = Inr info
               \<and> info ''url'' = Some u)
   \<and> ((\<forall>h f. fallback h f = Inr None \<or> (\<exists>e. fallback h f = Inl e)) \<longrightarrow>
         extract_product_info (page\<lparr>url_read := Inr u\<rparr>) fallback
           = extract_product_info (page\<lparr>url_read := Inr u\<rparr>) (\<lambda>h f. Inr None))"
proof (intro conjI impI)
  show "\<exists>r. extract_with_deepseek client html target_field = Inr r"
    by (rule extract_with_deepseek_total)
  show "extract_with_deepseek client html target_field = Inr None"
    if "\<forall>m. fallback_failed (client m)"
    using that by (rule extract_with_deepseek_failed)
  show "extract_with_deepseek client html target_field = Inr None"
    if "prompt_for target_field = None"
    using that by (simp add: extract_with_deepseek_def)
  show "\<exists>info. extract_product_info (page\<lparr>url_read := Inr u\<rparr>) fallback = Inr info
               \<and> info ''url'' = Some u"
    by (rule extract_product_info_returns)
  show "extract_product_info (page\<lparr>url_read := Inr u\<rparr>) fallback
           = extract_product_info (page\<lparr>url_read := Inr u\<rparr>) (\<lambda>h f. Inr None)"
    if f: "\<forall>h f. fallback h f = Inr None \<or> (\<exists>e. fallback h f = Inl e)"
  proof -
    have a: "fallback_field p fallback fld info = info" for p fld info
      by (rule fallback_field_absent) (use f in blast)
    have b: "fallback_field p (\<lambda>h f. Inr None) fld info = info" for p fld info
      by (rule fallback_field_absent) simp
    show ?thesis by (simp add: extract_product_info_def a b Let_def)
  qed
qed

text \<open>The API raises, answers \<open>None\<close>, or is asked for an unsupported field.\<close>

theorem fallback_failure_witness:
  "extract_with_deepseek (\<lambda>m. ApiRaises) ''<html></html>'' ''title'' = Inr None
   \<and> extract_with_deepseek (\<lambda>m. ApiContent (Some ''None'')) ''<html></html>'' ''price'' = Inr None
   \<and> extract_with_deepseek (\<lambda>m. ApiContent (Some ''Red'')) ''<html></html>'' ''color'' = Inr None
   \<and> extract_product_info page_without_title (extract_with_deepseek (\<lambda>m. ApiRaises))
       = Inr [''price'' \<mapsto> ''$0.00'', ''url'' \<mapsto> ''https://shop.example/p/1'']"
proof (intro conjI)
  note t1 = fallback_failure_never_aborts
              [where client = "\<lambda>m. ApiRaises" and html = "''<html></html>''"
                 and target_field = "''title''" and page = page_without_title
                 and u = "''https://shop.example/p/1''"
                 and fallback = "extract_with_deepseek (\<lambda>m. ApiRaises)"]
  show r1: "extract_with_deepseek (\<lambda>m. ApiRaises) ''<html></html>'' ''title'' = Inr None"
    using t1 by simp
  note t2 = fallback_failure_never_aborts
              [where client = "\<lambda>m. ApiContent (Some ''None'')" and html = "''<html></html>''"
                 and target_field = "''price''" and page = page_without_title
                 and u = "''https://shop.example/p/1''" and fallback = "\<lambda>h f. Inr None"]
  have "fallback_failed (ApiContent (Some ''None''))"
    by (simp add: py_lower_def py_strip_def is_space_def)
  then show "extract_with_deepseek (\<lambda>m. ApiContent (Some ''None'')) ''<html></html>'' ''price''
               = Inr None"
    using t2 by blast
  note t3 = fallback_failure_never_aborts
              [where client = "\<lambda>m. ApiContent (Some ''Red'')" and html = "''<html></html>''"
                 and target_field = "''color''" and page = page_without_title
                 and u = "''https://shop.example/p/1''" and fallback = "\<lambda>h f. Inr None"]
  have "prompt_for ''color'' = None" by (simp add: prompt_for_def)
  then show "extract_with_deepseek (\<lambda>m. ApiContent (Some ''Red'')) ''<html></html>'' ''color''
               = Inr None"
    using t3 by blast
  have fails: "\<forall>h f. extract_with_deepseek (\<lambda>m. ApiRaises) h f = Inr None
                 \<or> (\<exists>e. extract_with_deepseek (\<lambda>m. ApiRaises) h f = Inl e)"
    by (simp add: extract_with_deepseek_failed)
  have same: "page_without_title\<lparr>url_read := Inr ''https://shop.example/p/1''\<rparr>
                = page_without_title"
    by (simp add: page_without_title_def)
  have "extract_product_info page_without_title (extract_with_deepseek (\<lambda>m. ApiRaises))
          = extract_product_info page_without_title (\<lambda>h f. Inr None)"
    using t1 fails unfolding same by blast
  also have "\<dots> = Inr [''price'' \<mapsto> ''$0.00'', ''url'' \<mapsto> ''https://shop.example/p/1'']"
    by (simp add: extract_product_info_def page_without_title_def Let_def fallback_field_def
          has_valid_price_def)
  finally show "extract_product_info page_without_title (extract_with_deepseek (\<lambda>m. ApiRaises))
       = Inr [''price'' \<mapsto> ''$0.00'', ''url'' \<mapsto> ''https://shop.example/p/1'']" .
qed

section \<open>Properties of pagination\<close>

text \<open>
  C5 (as the code has it): the reference URL is the \<open>current_url\<close> argument when one is
  given, and the URL read on entry otherwise (lines 757-758). \<open>try_next_page_button\<close>
  reports success exactly when the button had not been tried and the URL observed after
  the click differs from the reference URL. Nothing else of the browser state enters the
  verdict.
\<close>

theorem pagination_success_iff_url_changed:
  "reported_success (try_next_page_button drv button current_url tried_buttons w)
     = (case current_url of
          Some reference \<Rightarrow>
            button \<notin> tried_buttons
            \<and> (\<exists>new_url. url_after_click drv button w = Some new_url \<and> new_url \<noteq> reference)
        | None \<Rightarrow>
            (case get_current_url drv w of
               (None, w0) \<Rightarrow> False
             | (Some reference, w0) \<Rightarrow>
                 button \<notin> tried_buttons
                 \<and> (\<exists>new_url. url_after_click drv button w0 = Some new_url
                                \<and> new_url \<noteq> reference)))"
  by (auto simp: reported_success_def try_next_page_button_def url_after_click_def capture_url_def
        check_url_changed_def Let_def split: prod.splits option.splits exn.splits if_splits)

text \<open>A changed URL is success, directly or after interception; changed content with
  the same URL (reference given or read), a button already tried, and a failing click are
  failures.\<close>

theorem pagination_success_witness:
  "reported_success (try_next_page_button listing_driver ''next''
      (Some ''https://shop.example/s?page=1'') {} listing_page_1)
   \<and> reported_success (try_next_page_button listing_driver ''overlaid'' None {} listing_page_1)
   \<and> \<not> reported_success (try_next_page_button listing_driver ''carousel''
      (Some ''https://shop.example/s?page=1'') {} listing_page_1)
   \<and> \<not> reported_success (try_next_page_button listing_driver ''carousel'' None {} listing_page_1)
   \<and> \<not> reported_success (try_next_page_button listing_driver ''next''
      (Some ''https://shop.example/s?page=1'') {''next''} listing_page_1)
   \<and> \<not> reported_success (try_next_page_button listing_driver ''broken''
      (Some ''https://shop.example/s?page=1'') {} listing_page_1)"
  unfolding pagination_success_iff_url_changed
  by (simp add: url_after_click_def listing_driver_def listing_page_1_def)

text \<open>
  C5 as stated fails when the caller passes a reference URL that is not the browser's URL
  at the time of the click: the browser is at \<open>page=1\<close> before the click on \<open>carousel\<close>
  and at \<open>page=1\<close> after it, and with the reference \<open>page=0\<close> the attempt is reported
  as a success.
\<close>

theorem pagination_stale_reference_counterexample:
  "fst (get_current_url listing_driver listing_page_1) = Some ''https://shop.example/s?page=1''
   \<and> url_after_click listing_driver ''carousel'' listing_page_1
       = Some ''https://shop.example/s?page=1''
   \<and> fst (try_next_page_button listing_driver ''carousel''
        (Some ''https://shop.example/s?page=0'') {} listing_page_1)
       = Inr (True, ''https://shop.example/s?page=1'')"
  by (simp add: try_next_page_button_def capture_url_def check_url_changed_def
        url_after_click_def listing_driver_def listing_page_1_def)

section \<open>Properties of the session loop\<close>

lemma then_do_output:
  assumes "\<And>s. output_file (snd (f s)) = output_file s"
      and "\<And>s. output_file (snd (g s)) = output_file s"
  shows "output_file (snd (then_do f g s)) = output_file s"
proof (cases "f s")
  case (Pair r s')
  have f: "output_file s' = output_file s" using assms(1)[of s] Pair by simp
  show ?thesis using Pair f assms(2)[of s'] by (cases r) (simp_all add: then_do_def)
qed

lemma then_do_appends:
  assumes "\<And>s. output_file (snd (f s)) = output_file s"
      and "\<And>s. \<exists>new. output_file (snd (g s)) = output_file s @ new \<and> (\<forall>x \<in> set new. P x)"
  shows "\<exists>new. output_file (snd (then_do f g s)) = output_file s @ new \<and> (\<forall>x \<in> set new. P x)"
proof (cases "f s")
  case (Pair r s')
  have f: "output_file s' = output_file s" using assms(1)[of s] Pair by simp
  show ?thesis using Pair f assms(2)[of s'] by (cases r) (simp_all add: then_do_def)
qed

lemma then_do_appended:
  assumes "\<And>s. \<exists>new. output_file (snd (f s)) = output_file s @ new \<and> (\<forall>x \<in> set new. P x)"
      and "\<And>s. output_file (snd (g s)) = output_file s"
  shows "\<exists>new. output_file (snd (then_do f g s)) = output_file s @ new \<and> (\<forall>x \<in> set new. P x)"
proof (cases "f s")
  case (Pair r s')
  obtain new where f: "output_file s' = output_file s @ new" "\<forall>x \<in> set new. P x"
    using assms(1)[of s] Pair by auto
  show ?thesis using Pair f assms(2)[of s'] by (cases r) (auto simp add: then_do_def)
qed

lemma driver_call_output:
  assumes "\<And>s. output_file (effect s) = output_file s"
  shows "output_file (snd (driver_call env site effect s)) = output_file s"
  using assms by (simp add: driver_call_def split: option.splits)

lemma close_window_output: "output_file (snd (close_window env site s)) = output_file s"
  unfolding close_window_def by (rule driver_call_output) simp

lemma switch_to_window_output: "output_file (snd (switch_to_window env site h s)) = output_file s"
  by (simp add: switch_to_window_def split: option.splits)

lemma switch_to_main_window_output:
  "output_file (snd (switch_to_main_window env site s)) = output_file s"
  by (simp add: switch_to_main_window_def switch_to_window_output split: option.splits)

lemma clicked_output: "output_file (clicked env s) = output_file s"
  by (simp add: clicked_def split: option.splits)

lemma click_product_output: "output_file (snd (click_product env s)) = output_file s"
  by (simp add: click_product_def driver_call_output clicked_output
        split: option.splits exn.splits)

lemma detect_new_window_output: "output_file (snd (detect_new_window env s)) = output_file s"
  by (simp add: detect_new_window_def Let_def switch_to_window_output split: option.splits)

lemma leave_product_page_output: "output_file (snd (leave_product_page env s)) = output_file s"
  by (simp add: leave_product_page_def driver_call_output then_do_output close_window_output
        switch_to_main_window_output split: option.splits)

lemma recover_output: "output_file (snd (recover env starting_website s)) = output_file s"
  by (simp add: recover_def driver_call_output then_do_output close_window_output
        switch_to_main_window_output split: option.splits sum.splits bool.splits)

lemma save_product_output:
  "output_file (snd (save_product env target_href product_info s))
     = output_file s @ (if truthy (product_info ''url'') \<and> raised_at env Open_659 = None
                        then [product_info] else [])"
  by (simp add: save_product_def driver_call_def split: option.splits)

lemma save_then_leave_output:
  "\<exists>new. output_file (snd (then_do (save_product env target_href product_info)
                              (leave_product_page env) s)) = output_file s @ new
         \<and> (\<forall>x \<in> set new. x = product_info \<and> truthy (product_info ''url''))"
proof (rule then_do_appended)
  fix s show "\<exists>new. output_file (snd (save_product env target_href product_info s))
                 = output_file s @ new
               \<and> (\<forall>x \<in> set new. x = product_info \<and> truthy (product_info ''url''))"
    by (simp add: save_product_output)
next
  fix s show "output_file (snd (leave_product_page env s)) = output_file s"
    by (rule leave_product_page_output)
qed

lemma visit_product_output:
  "\<exists>new. output_file (snd (visit_product env e s)) = output_file s @ new
         \<and> (\<forall>x \<in> set new. truthy (x ''url'')
               \<and> extract_product_info (product_page_shown env) (fallback_extractor env) = Inr x)"
  (is "\<exists>new. _ \<and> (\<forall>x \<in> set new. ?P x)")
proof -
  have last: "\<exists>new. output_file (snd
        ((\<lambda>s. case extract_product_info (product_page_shown env) (fallback_extractor env) of
                Inl e \<Rightarrow> (Some e, s)
              | Inr product_info \<Rightarrow>
                  then_do (save_product env (el_href e) product_info)
                    (leave_product_page env) s) s)) = output_file s @ new
         \<and> (\<forall>x \<in> set new. ?P x)" for s
  proof (cases "extract_product_info (product_page_shown env) (fallback_extractor env)")
    case (Inl a) then show ?thesis by simp
  next
    case (Inr info)
    obtain new where "output_file (snd (then_do (save_product env (el_href e) info)
                              (leave_product_page env) s)) = output_file s @ new"
         "\<forall>x \<in> set new. x = info \<and> truthy (info ''url'')"
      using save_then_leave_output[of env "el_href e" info s] by blast
    then show ?thesis using Inr by auto
  qed
  have c3: "\<exists>new. output_file (snd (then_do (detect_new_window env)
        (\<lambda>s. case extract_product_info (product_page_shown env) (fallback_extractor env) of
                Inl e \<Rightarrow> (Some e, s)
              | Inr product_info \<Rightarrow>
                  then_do (save_product env (el_href e) product_info)
                    (leave_product_page env) s) s)) = output_file s @ new
         \<and> (\<forall>x \<in> set new. ?P x)" for s
    by (rule then_do_appends[OF detect_new_window_output last])
  have c2: "\<exists>new. output_file (snd (then_do (click_product env) (then_do (detect_new_window env)
        (\<lambda>s. case extract_product_info (product_page_shown env) (fallback_extractor env) of
                Inl e \<Rightarrow> (Some e, s)
              | Inr product_info \<Rightarrow>
                  then_do (save_product env (el_href e) product_info)
                    (leave_product_page env) s)) s)) = output_file s @ new
         \<and> (\<forall>x \<in> set new. ?P x)" for s
    by (rule then_do_appends[OF click_product_output c3])
  have c0: "output_file (snd (driver_call env Current_window_handle_626
                (\<lambda>s. s\<lparr>main_window := Some (current_window_handle s)\<rparr>) s)) = output_file s" for s
    by (rule driver_call_output) simp
  have c1: "\<exists>new. output_file (snd (then_do (driver_call env Current_window_handle_626
                (\<lambda>s. s\<lparr>main_window := Some (current_window_handle s)\<rparr>))
       (then_do (click_product env) (then_do (detect_new_window env)
        (\<lambda>s. case extract_product_info (product_page_shown env) (fallback_extractor env) of
                Inl e \<Rightarrow> (Some e, s)
              | Inr product_info \<Rightarrow>
                  then_do (save_product env (el_href e) product_info)
                    (leave_product_page env) s))) s)) = output_file s @ new
         \<and> (\<forall>x \<in> set new. ?P x)" for s
    by (rule then_do_appends[OF c0 c2])
  show ?thesis
    using c1[of s] by (simp add: visit_product_def Let_def)
qed

lemma try_record_output:
  "\<exists>new. output_file (snd (try_record env sel i pes s)) = output_file s @ new
         \<and> (\<forall>x \<in> set new. truthy (x ''url'')
               \<and> extract_product_info (product_page_shown env) (fallback_extractor env) = Inr x)"
  using visit_product_output[of env _ s]
  by (simp add: try_record_def split: sum.splits option.splits)

lemma process_record_output:
  "\<exists>new. output_file (snd (process_record env sel sw i pes s)) = output_file s @ new
         \<and> (\<forall>x \<in> set new. truthy (x ''url'')
               \<and> extract_product_info (product_page_shown env) (fallback_extractor env) = Inr x)"
proof (cases "try_record env sel i pes s")
  case (Pair r s')
  obtain new where n: "output_file s' = output_file s @ new"
     "\<forall>x \<in> set new. truthy (x ''url'')
               \<and> extract_product_info (product_page_shown env) (fallback_extractor env) = Inr x"
    using try_record_output[of env sel i pes s] Pair by auto
  have r: "output_file (snd (recover env sw s')) = output_file s'" by (rule recover_output)
  have "output_file (snd (process_record env sel sw i pes s)) = output_file s'"
    using Pair r by (auto simp: process_record_def split: option.splits exn.splits prod.splits)
  then show ?thesis using n by auto
qed

lemma process_records_output:
  "\<exists>new. output_file (process_records env_of sel sw pes is s) = output_file s @ new
         \<and> (\<forall>x \<in> set new. truthy (x ''url'')
               \<and> (\<exists>i \<in> set is. extract_product_info (product_page_shown (env_of i))
                                   (fallback_extractor (env_of i)) = Inr x))"
proof (induction "is" arbitrary: s)
  case Nil show ?case by simp
next
  case (Cons i "is")
  obtain fl s' where p: "process_record (env_of i) sel sw i pes s = (fl, s')"
    by (cases "process_record (env_of i) sel sw i pes s")
  obtain new1 where n1: "output_file s' = output_file s @ new1"
     "\<forall>x \<in> set new1. truthy (x ''url'')
        \<and> extract_product_info (product_page_shown (env_of i)) (fallback_extractor (env_of i)) = Inr x"
    using process_record_output[of "env_of i" sel sw i pes s] p by auto
  show ?case
  proof (cases fl)
    case Break_page
    then show ?thesis using p n1 by auto
  next
    case Next_record
    obtain new2 where n2: "output_file (process_records env_of sel sw pes is s') = output_file s' @ new2"
      "\<forall>x \<in> set new2. truthy (x ''url'')
               \<and> (\<exists>i \<in> set is. extract_product_info (product_page_shown (env_of i))
                                   (fallback_extractor (env_of i)) = Inr x)"
      using Cons.IH[of s'] by blast
    have "output_file (process_records env_of sel sw pes (i # is) s) = output_file s @ (new1 @ new2)"
      using p Next_record n1 n2 by simp
    moreover have "\<forall>x \<in> set (new1 @ new2). truthy (x ''url'')
               \<and> (\<exists>j \<in> set (i # is). extract_product_info (product_page_shown (env_of j))
                                   (fallback_extractor (env_of j)) = Inr x)"
      using n1(2) n2(2) by auto
    ultimately show ?thesis by blast
  qed
qed

text \<open>
  C6: whatever the browser does, the records that the loop over the records of a page
  appends to the output file all have a non-empty \<open>url\<close>, and each of them is the record
  extracted in one of the iterations. A record that lacks a \<open>url\<close> value is therefore
  never appended.
\<close>

theorem records_without_url_never_persisted:
  "\<exists>new. output_file (process_page env_of successful_selector_value starting_website
                        max_products_per_page product_elements s) = output_file s @ new
         \<and> (\<forall>product_info \<in> set new. truthy (product_info ''url'')
               \<and> (\<exists>i < min max_products_per_page (length product_elements).
                     extract_product_info (product_page_shown (env_of i))
                       (fallback_extractor (env_of i)) = Inr product_info))"
proof -
  obtain new where n: "output_file (process_records env_of successful_selector_value starting_website
        product_elements [0 ..< min max_products_per_page (length product_elements)]
        (s\<lparr>processed_product_hrefs_on_page := {}\<rparr>))
       = output_file (s\<lparr>processed_product_hrefs_on_page := {}\<rparr>) @ new"
    "\<forall>x \<in> set new. truthy (x ''url'')
               \<and> (\<exists>i \<in> set [0 ..< min max_products_per_page (length product_elements)].
                     extract_product_info (product_page_shown (env_of i))
                                   (fallback_extractor (env_of i)) = Inr x)"
    using process_records_output by blast
  have m: "\<forall>x \<in> set new. truthy (x ''url'')
               \<and> (\<exists>i < min max_products_per_page (length product_elements).
                     extract_product_info (product_page_shown (env_of i))
                                   (fallback_extractor (env_of i)) = Inr x)"
  proof
    fix x assume "x \<in> set new"
    then obtain i where "truthy (x ''url'')"
        "i \<in> set [0 ..< min max_products_per_page (length product_elements)]"
        "extract_product_info (product_page_shown (env_of i)) (fallback_extractor (env_of i)) = Inr x"
      using n(2) by blast
    then show "truthy (x ''url'')
               \<and> (\<exists>i < min max_products_per_page (length product_elements).
                     extract_product_info (product_page_shown (env_of i))
                                   (fallback_extractor (env_of i)) = Inr x)"
      by (intro conjI exI[of _ i]) simp_all
  qed
  have "output_file (process_page env_of successful_selector_value starting_website
                        max_products_per_page product_elements s) = output_file s @ new"
    using n(1) by (simp add: process_page_def)
  then show ?thesis using m by blast
qed

lemma extract_page_1:
  "extract_product_info product_page_1 (\<lambda>html field. Inr None) = Inr record_1"
  by (simp add: extract_product_info_def product_page_1_def record_1_def has_valid_price_def
        Let_def is_digit_def)

lemma extract_without_url:
  "extract_product_info (product_page_1\<lparr>url_read := Inr []\<rparr>) (\<lambda>html field. Inr None)
     = Inr record_without_url"
  by (simp add: extract_product_info_def product_page_1_def record_without_url_def Let_def)

lemmas session_defs = process_record_def try_record_def locate_product_def visit_product_def
  then_do_def driver_call_def click_product_def clicked_def detect_new_window_def
  switch_to_window_def switch_to_main_window_def close_window_def save_product_def
  leave_product_page_def recover_def

lemma visit_1:
  "process_record (two_products 0) (Some ''.item'') ''https://shop.example'' 0 two_links
      listing_session
   = (Next_record,
      \<lparr>window_handles = [''main''], current_window_handle = ''main'', output_file = [record_1],
       processed_product_hrefs_on_page = {Some ''/p/1''}, products_count = 1,
       main_window = Some ''main'', new_window = Some (Some ''popup'')\<rparr>)"
  by (simp add: session_defs two_products_def popup_env_def two_links_def listing_session_def
        extract_page_1 record_1_def anchor_fixture_def Let_def)

lemma visit_2:
  "process_record (two_products (Suc 0)) (Some ''.item'') ''https://shop.example'' (Suc 0) two_links
      \<lparr>window_handles = [''main''], current_window_handle = ''main'', output_file = [record_1],
       processed_product_hrefs_on_page = {Some ''/p/1''}, products_count = Suc 0,
       main_window = Some ''main'', new_window = Some (Some ''popup'')\<rparr>
   = (Next_record,
      \<lparr>window_handles = [''main''], current_window_handle = ''main'', output_file = [record_1],
       processed_product_hrefs_on_page = {Some ''/p/1''}, products_count = Suc 0,
       main_window = Some ''main'', new_window = Some (Some ''popup'')\<rparr>)"
  by (simp add: session_defs two_products_def popup_env_def two_links_def
        extract_without_url get_main_link_tile record_without_url_def anchor_fixture_def Let_def)

lemma run_two_products:
  "output_file (process_page two_products (Some ''.item'') ''https://shop.example'' 100 two_links
      listing_session) = [record_1]"
proof -
  have l: "[0 ..< min 100 (length two_links)] = [0, Suc 0]"
    by (simp add: two_links_def upt_rec)
  have s0: "listing_session\<lparr>processed_product_hrefs_on_page := {}\<rparr> = listing_session"
    by (simp add: listing_session_def)
  show ?thesis
    unfolding process_page_def l s0 by (simp add: visit_1 visit_2)
qed

text \<open>Two products: the record of the first is written; the record of the second, whose
  \<open>url\<close> is empty, is not.\<close>

theorem records_without_url_witness:
  "output_file (process_page two_products (Some ''.item'') ''https://shop.example'' 100 two_links
      listing_session) = [record_1]
   \<and> truthy (record_1 ''url'')
   \<and> extract_product_info (product_page_shown (two_products 1))
        (fallback_extractor (two_products 1)) = Inr record_without_url
   \<and> \<not> truthy (record_without_url ''url'')"
proof -
  obtain new where n: "output_file (process_page two_products (Some ''.item'')
        ''https://shop.example'' 100 two_links listing_session) = output_file listing_session @ new"
     "\<forall>product_info \<in> set new. truthy (product_info ''url'')"
    using records_without_url_never_persisted[of two_products "Some ''.item''" "''https://shop.example''" 100 two_links
             listing_session] by blast
  have "new = [record_1]" using n(1) run_two_products by (simp add: listing_session_def)
  then have t: "truthy (record_1 ''url'')" using n(2) by simp
  have e: "extract_product_info (product_page_shown (two_products 1))
        (fallback_extractor (two_products 1)) = Inr record_without_url"
    by (simp add: two_products_def popup_env_def extract_without_url)
  have f: "\<not> truthy (record_without_url ''url'')" by (simp add: record_without_url_def)
  show ?thesis using run_two_products t e f by blast
qed

text \<open>
  C2 does not hold of the code. A click opens the window \<open>popup\<close> in all four runs, and
  the loop switches to it. When nothing raises, and when the output file cannot be opened
  (generic handler, lines 690-698), the iteration ends with \<open>popup\<close> closed and \<open>main\<close>
  active. When \<open>StaleElementReferenceException\<close> is raised after the switch (handler of
  lines 687-689), and when another exception is raised and \<open>driver.close()\<close> of line 694
  raises in turn (lines 699-701), the loop breaks with \<open>popup\<close> open and active.
\<close>

theorem popup_left_open_on_abort:
  "process_record (popup_env (\<lambda>site. None) product_page_1) (Some ''.item'')
       ''https://shop.example'' 0 two_links listing_session
     = (Next_record,
        \<lparr>window_handles = [''main''], current_window_handle = ''main'', output_file = [record_1],
         processed_product_hrefs_on_page = {Some ''/p/1''}, products_count = 1,
         main_window = Some ''main'', new_window = Some (Some ''popup'')\<rparr>)
   \<and> process_record
       (popup_env (\<lambda>site. if site = Open_659 then Some OtherException else None) product_page_1)
       (Some ''.item'') ''https://shop.example'' 0 two_links listing_session
     = (Next_record,
        \<lparr>window_handles = [''main''], current_window_handle = ''main'', output_file = [],
         processed_product_hrefs_on_page = {Some ''/p/1''}, products_count = 0,
         main_window = Some ''main'', new_window = Some (Some ''popup'')\<rparr>)
   \<and> process_record
       (popup_env (\<lambda>site. None) (product_page_1\<lparr>url_read := Inl StaleElementReferenceException\<rparr>))
       (Some ''.item'') ''https://shop.example'' 0 two_links listing_session
     = (Break_page,
        \<lparr>window_handles = [''main'', ''popup''], current_window_handle = ''popup'',
         output_file = [], processed_product_hrefs_on_page = {}, products_count = 0,
         main_window = Some ''main'', new_window = Some (Some ''popup'')\<rparr>)
   \<and> process_record
       (popup_env (\<lambda>site. if site = Close_694 then Some OtherException else None)
          (product_page_1\<lparr>url_read := Inl OtherException\<rparr>))
       (Some ''.item'') ''https://shop.example'' 0 two_links listing_session
     = (Break_page,
        \<lparr>window_handles = [''main'', ''popup''], current_window_handle = ''popup'',
         output_file = [], processed_product_hrefs_on_page = {}, products_count = 0,
         main_window = Some ''main'', new_window = Some (Some ''popup'')\<rparr>)"
proof -
  have ok: "process_record (popup_env (\<lambda>site. None) product_page_1) (Some ''.item'')
       ''https://shop.example'' 0 two_links listing_session
     = (Next_record,
        \<lparr>window_handles = [''main''], current_window_handle = ''main'', output_file = [record_1],
         processed_product_hrefs_on_page = {Some ''/p/1''}, products_count = 1,
         main_window = Some ''main'', new_window = Some (Some ''popup'')\<rparr>)"
    by (simp add: session_defs popup_env_def two_links_def listing_session_def
        extract_page_1 record_1_def anchor_fixture_def Let_def)
  have generic: "process_record
       (popup_env (\<lambda>site. if site = Open_659 then Some OtherException else None) product_page_1)
       (Some ''.item'') ''https://shop.example'' 0 two_links listing_session
     = (Next_record,
        \<lparr>window_handles = [''main''], current_window_handle = ''main'', output_file = [],
         processed_product_hrefs_on_page = {Some ''/p/1''}, products_count = 0,
         main_window = Some ''main'', new_window = Some (Some ''popup'')\<rparr>)"
    by (simp add: session_defs popup_env_def two_links_def listing_session_def
        extract_page_1 record_1_def anchor_fixture_def Let_def)
  have stale: "process_record
       (popup_env (\<lambda>site. None) (product_page_1\<lparr>url_read := Inl StaleElementReferenceException\<rparr>))
       (Some ''.item'') ''https://shop.example'' 0 two_links listing_session
     = (Break_page,
        \<lparr>window_handles = [''main'', ''popup''], current_window_handle = ''popup'',
         output_file = [], processed_product_hrefs_on_page = {}, products_count = 0,
         main_window = Some ''main'', new_window = Some (Some ''popup'')\<rparr>)"
    by (simp add: session_defs popup_env_def two_links_def listing_session_def
        extract_product_info_def product_page_1_def anchor_fixture_def Let_def)
  have failed: "process_record
       (popup_env (\<lambda>site. if site = Close_694 then Some OtherException else None)
          (product_page_1\<lparr>url_read := Inl OtherException\<rparr>))
       (Some ''.item'') ''https://shop.example'' 0 two_links listing_session
     = (Break_page,
        \<lparr>window_handles = [''main'', ''popup''], current_window_handle = ''popup'',
         output_file = [], processed_product_hrefs_on_page = {}, products_count = 0,
         main_window = Some ''main'', new_window = Some (Some ''popup'')\<rparr>)"
    by (simp add: session_defs popup_env_def two_links_def listing_session_def
        extract_product_info_def product_page_1_def anchor_fixture_def Let_def)
  show ?thesis using ok generic stale failed by blast
qed

section \<open>Properties of the deduplication utility\<close>













end
